theory Spec2Isabelle
  imports Main
begin

section \<open>JavaScript values\<close>

text \<open>
  The client of \<^verbatim>\<open>src/consensus/client.js\<close> handles values that come out of
  \<^verbatim>\<open>JSON.parse\<close>, plus \<^verbatim>\<open>undefined\<close>. An object is the list of its own properties
  in the order they were set; numbers are the integers (the ids of the protocol); a string
  is a list of code units below 256. An exception is a value of type \<open>error\<close>: the only
  one the modelled code can raise and not catch is the \<^verbatim>\<open>TypeError\<close> of reading a
  property of \<^verbatim>\<open>null\<close> or \<^verbatim>\<open>undefined\<close>. A function that can raise returns
  \<open>Inl\<close> of the error or \<open>Inr\<close> of its result; one that changes the variables of the
  module or writes to a socket takes the state and returns the new state and the list of
  what it did to the outside.
\<close>

datatype jsval =
    JUndefined
  | JNull
  | JBool bool
  | JNum int
  | JStr string
  | JArr "jsval list"
  | JObj "(string \<times> jsval) list"

datatype error = TypeError

fun typeof :: "jsval \<Rightarrow> string" where
  "typeof JUndefined = ''undefined''"
| "typeof JNull = ''object''"
| "typeof (JBool b) = ''boolean''"
| "typeof (JNum n) = ''number''"
| "typeof (JStr s) = ''string''"
| "typeof (JArr xs) = ''object''"
| "typeof (JObj kvs) = ''object''"

text \<open>The truth value of a condition: \<^verbatim>\<open>if (v)\<close>, \<^verbatim>\<open>!v\<close>, \<^verbatim>\<open>v && w\<close>.\<close>

fun truthy :: "jsval \<Rightarrow> bool" where
  "truthy JUndefined = False"
| "truthy JNull = False"
| "truthy (JBool b) = b"
| "truthy (JNum n) = (n \<noteq> 0)"
| "truthy (JStr s) = (s \<noteq> [])"
| "truthy (JArr xs) = True"
| "truthy (JObj kvs) = True"

fun digit_char :: "nat \<Rightarrow> char" where
  "digit_char n = char_of (48 + n)"

fun show_nat :: "nat \<Rightarrow> string" where
  "show_nat n = (if n < 10 then [digit_char n] else show_nat (n div 10) @ [digit_char (n mod 10)])"

declare show_nat.simps [simp del]

definition show_int :: "int \<Rightarrow> string" where
  "show_int i = (if i < 0 then CHR ''-'' # show_nat (nat (- i)) else show_nat (nat i))"

text \<open>
  \<^verbatim>\<open>v.name\<close> for the names the client reads (\<^verbatim>\<open>id\<close>, \<^verbatim>\<open>result\<close>, \<^verbatim>\<open>work\<close>,
  \<^verbatim>\<open>socketId\<close>): none of them is a built-in property of an array, a string, a number or
  a boolean, so only an object can hold one.
\<close>

fun get_field :: "jsval \<Rightarrow> string \<Rightarrow> error + jsval" where
  "get_field JUndefined k = Inl TypeError"
| "get_field JNull k = Inl TypeError"
| "get_field (JObj kvs) k = Inr (case map_of kvs k of None \<Rightarrow> JUndefined | Some v \<Rightarrow> v)"
| "get_field v k = Inr JUndefined"

text \<open>\<^verbatim>\<open>v[i]\<close> for an index \<open>i\<close>: an element, a character, or the property named by the digits of \<open>i\<close>.\<close>

fun get_index :: "jsval \<Rightarrow> nat \<Rightarrow> error + jsval" where
  "get_index JUndefined i = Inl TypeError"
| "get_index JNull i = Inl TypeError"
| "get_index (JArr xs) i = Inr (if i < length xs then xs ! i else JUndefined)"
| "get_index (JStr s) i = Inr (if i < length s then JStr [s ! i] else JUndefined)"
| "get_index (JObj kvs) i = Inr (case map_of kvs (show_nat i) of None \<Rightarrow> JUndefined | Some v \<Rightarrow> v)"
| "get_index v i = Inr JUndefined"

text \<open>The string a primitive value is converted to when a string is expected.\<close>

fun ToString :: "jsval \<Rightarrow> string" where
  "ToString (JStr s) = s"
| "ToString (JNum n) = show_int n"
| "ToString (JBool b) = (if b then ''true'' else ''false'')"
| "ToString JNull = ''null''"
| "ToString v = ''undefined''"

section \<open>What the client takes from outside\<close>

text \<open>
  \<^verbatim>\<open>JSON.parse\<close> and \<^verbatim>\<open>JSON.stringify\<close> belong to the language, and
  \<^verbatim>\<open>lambda.prepreVirtualBlocks\<close> to a module of the repository that is not among the
  sources. All three are parameters of the model: \<open>JSON_parse\<close> returns \<open>None\<close> where
  the built-in throws its \<^verbatim>\<open>SyntaxError\<close>; \<open>prepreVirtualBlocks\<close>, a pure function of
  the chunk by the spec, returns \<open>None\<close> for \<^verbatim>\<open>undefined\<close> and the array of virtual
  blocks otherwise.
\<close>

record env =
  JSON_parse :: "string \<Rightarrow> jsval option"
  JSON_stringify :: "jsval \<Rightarrow> string"
  prepreVirtualBlocks :: "string \<Rightarrow> jsval list option"

text \<open>
  Modelled from the spec: \<^verbatim>\<open>stratumDeserialize\<close> of \<^verbatim>\<open>libs/stratum\<close>, which is not
  among the sources. The spec has a chunk parsed as one JSON value and recovery tried "if
  parsing fails"; the client tests the result with \<^verbatim>\<open>!data\<close> and also hands it values
  that are objects already (\<^verbatim>\<open>res[0]\<close>, the request bodies). So an object is returned as
  it is, anything else is parsed, and a text that does not parse gives \<^verbatim>\<open>null\<close>.
\<close>

definition stratumDeserialize :: "env \<Rightarrow> jsval \<Rightarrow> jsval" where
  "stratumDeserialize E v =
     (if typeof v = ''object'' then v
      else case JSON_parse E (ToString v) of None \<Rightarrow> JNull | Some x \<Rightarrow> x)"

section \<open>The work store\<close>

text \<open>The two variables of the module: \<^verbatim>\<open>gCurrentWork\<close> and \<^verbatim>\<open>gPendingVirtualBlocks\<close>.\<close>

record globals =
  gCurrentWork :: jsval
  gPendingVirtualBlocks :: "jsval list"

definition init_globals :: globals where
  "init_globals = \<lparr>gCurrentWork = JObj [], gPendingVirtualBlocks = []\<rparr>"

definition getCurrentWork :: "globals \<Rightarrow> error + jsval" where
  "getCurrentWork g = get_field (gCurrentWork g) ''work''"

definition getCurrentWorkSocketId :: "globals \<Rightarrow> error + jsval" where
  "getCurrentWorkSocketId g = get_field (gCurrentWork g) ''socketId''"

definition getCurrentWorkId :: "env \<Rightarrow> globals \<Rightarrow> error + jsval" where
  "getCurrentWorkId E g =
     (case getCurrentWork g of
        Inl e \<Rightarrow> Inl e
      | Inr w \<Rightarrow> get_field (stratumDeserialize E w) ''id'')"

definition getCurrentDifficulty :: "env \<Rightarrow> globals \<Rightarrow> error + jsval" where
  "getCurrentDifficulty E g =
     (case getCurrentWork g of
        Inl e \<Rightarrow> Inl e
      | Inr w \<Rightarrow>
          (case get_field (stratumDeserialize E w) ''result'' of
             Inl e \<Rightarrow> Inl e
           | Inr r \<Rightarrow> get_index r 2))"

definition setCurrentWork :: "env \<Rightarrow> jsval \<Rightarrow> globals \<Rightarrow> globals" where
  "setCurrentWork E work g =
     g\<lparr>gCurrentWork :=
         JObj [(''work'', if typeof work = ''object'' then JStr (JSON_stringify E work) else work)]\<rparr>"

section \<open>Reframing an inbound chunk\<close>

text \<open>The characters the regular expression class \<^verbatim>\<open>\s\<close> matches, among the code units below 256.\<close>

definition is_js_space :: "char \<Rightarrow> bool" where
  "is_js_space c =
     (c = CHR 0x20 \<or> c = CHR 0x09 \<or> c = CHR 0x0A \<or> c = CHR 0x0B \<or> c = CHR 0x0C \<or> c = CHR 0x0D
      \<or> c = CHR 0xA0)"

text \<open>
  \<^verbatim>\<open>payload.replace(/\n+\s+/, '')\<close>: the leftmost match starts at the first newline that a
  white-space character follows, and being greedy it runs to the end of that white space;
  only this first match is removed.
\<close>

fun replace_nl_ws :: "string \<Rightarrow> string" where
  "replace_nl_ws [] = []"
| "replace_nl_ws [c] = [c]"
| "replace_nl_ws (c # d # r) =
     (if c = CHR 0x0A \<and> is_js_space d then dropWhile is_js_space (d # r)
      else c # replace_nl_ws (d # r))"

text \<open>\<^verbatim>\<open>payload.replace(/}{/g, '},{')\<close>: every occurrence, left to right.\<close>

fun replace_braces :: "string \<Rightarrow> string" where
  "replace_braces [] = []"
| "replace_braces [c] = [c]"
| "replace_braces (c # d # r) =
     (if c = CHR ''}'' \<and> d = CHR ''{'' then ''},{'' @ replace_braces r
      else c # replace_braces (d # r))"

definition sanitize :: "string \<Rightarrow> string" where
  "sanitize payload = ''['' @ replace_braces (replace_nl_ws payload) @ '']''"

text \<open>
  The \<^verbatim>\<open>try\<close> block of \<^verbatim>\<open>onDataSetWork\<close>: \<open>None\<close> when its \<^verbatim>\<open>catch\<close> is taken,
  otherwise the pair (\<^verbatim>\<open>data\<close>, \<^verbatim>\<open>extraData\<close>).
\<close>

definition reframe :: "env \<Rightarrow> string \<Rightarrow> (jsval \<times> jsval) option" where
  "reframe E payload =
     (case JSON_parse E (sanitize payload) of
        None \<Rightarrow> None
      | Some res \<Rightarrow>
          (case get_index res 0 of
             Inl e \<Rightarrow> None
           | Inr r0 \<Rightarrow>
               (case get_index res 1 of
                  Inl e \<Rightarrow> None
                | Inr r1 \<Rightarrow> Some (stratumDeserialize E r0, stratumDeserialize E r1))))"

definition onDataSetWork :: "env \<Rightarrow> string \<Rightarrow> globals \<Rightarrow> error + globals" where
  "onDataSetWork E payload g =
     (let data = stratumDeserialize E (JStr payload) in
      case (if \<not> truthy data then reframe E payload else Some (data, JNull)) of
        None \<Rightarrow> Inr g
      | Some (data', extraData) \<Rightarrow>
          (case get_field data' ''result'' of
             Inl e \<Rightarrow> Inl e
           | Inr r \<Rightarrow>
               if truthy r \<and> typeof r = ''object'' then Inr (setCurrentWork E data' g)
               else Inr g))"

section \<open>The client and its broadcasts\<close>

text \<open>
  The object \<^verbatim>\<open>prepareToSendBlocks\<close> builds. The field \<^verbatim>\<open>id\<close> is \<open>rpc_id\<close> here
  and \<^verbatim>\<open>method\<close> is \<open>rpc_method\<close>.
\<close>

record submission =
  rpc_id :: int
  jsonrpc :: string
  rpc_method :: string
  params :: "jsval list"
  miner :: string
  virtualBlocks :: "jsval list"
  txs :: "jsval list"

record endpoint =
  host :: string
  port :: int

record server = endpoint +
  server_id :: int

text \<open>
  The options \<^verbatim>\<open>startClientWithAppServer\<close> reads: \<^verbatim>\<open>serverId\<close>, \<^verbatim>\<open>servers\<close> and
  \<^verbatim>\<open>apiServer\<close>.
\<close>

record options =
  serverId :: int
  servers :: "server list"
  apiServer :: endpoint

text \<open>A socket object, with the \<^verbatim>\<open>server\<close> property the client sets on it.\<close>

record socket_obj =
  sock_server :: "server option"

text \<open>
  The fields of a \<^verbatim>\<open>Client\<close>. \<^verbatim>\<open>ids\<close> and \<^verbatim>\<open>socket\<close> are objects keyed by a server
  id, an array index, and such keys are enumerated in ascending order: both are lists
  sorted by key. \<^verbatim>\<open>workObjects\<close> holds objects of a class that is not among the sources.
\<close>

record client =
  ids :: "(nat \<times> string) list"
  socket :: "(nat \<times> socket_obj) list"
  workObjects :: "unit list"

definition Client :: client where
  "Client = \<lparr>ids = [], socket = [], workObjects = []\<rparr>"

text \<open>
  What the client does to the outside: \<^verbatim>\<open>socket.connect(port, host)\<close>, a
  \<^verbatim>\<open>socket.write\<close> of the serialized submission, \<^verbatim>\<open>appServer.listen\<close>.
\<close>

datatype event =
    SocketConnect nat string int
  | SocketWrite nat submission
  | ApiListen string int

text \<open>\<^verbatim>\<open>obj[k] = v\<close> on an object keyed by array indices.\<close>

fun obj_set :: "(nat \<times> 'a) list \<Rightarrow> nat \<Rightarrow> 'a \<Rightarrow> (nat \<times> 'a) list" where
  "obj_set [] k v = [(k, v)]"
| "obj_set ((k', v') # r) k v =
     (if k = k' then (k, v) # r
      else if k < k' then (k, v) # (k', v') # r
      else (k', v') # obj_set r k v)"

text \<open>\<^verbatim>\<open>xs[i] = v\<close> on an array: past the end the array grows, the gap reading \<^verbatim>\<open>undefined\<close>.\<close>

definition js_array_set :: "jsval list \<Rightarrow> nat \<Rightarrow> jsval \<Rightarrow> jsval list" where
  "js_array_set xs i v =
     (if i < length xs then xs[i := v]
      else xs @ replicate (i - length xs) JUndefined @ [v])"

text \<open>The inner loop of \<^verbatim>\<open>sendVirtualBlocks\<close>, from index \<open>i\<close> on.\<close>

function txs_loop :: "nat \<Rightarrow> jsval list \<Rightarrow> jsval list \<Rightarrow> jsval list" where
  "txs_loop i pending ts =
     (if i < length pending then txs_loop (Suc i) pending (js_array_set ts i (pending ! i))
      else ts)"
  by pat_completeness auto
termination
  by (relation "measure (\<lambda>(i, pending, ts). length pending - i)") auto

declare txs_loop.simps [simp del]

text \<open>
  The outer loop of \<^verbatim>\<open>sendVirtualBlocks\<close> over the keys of \<^verbatim>\<open>this.ids\<close>. The
  submission is one object, changed in place from one connection to the next; what is
  written is its state at the call of \<^verbatim>\<open>write\<close>. Writing to a key with no socket is the
  \<^verbatim>\<open>TypeError\<close> of \<^verbatim>\<open>undefined.write\<close>.
\<close>

fun send_loop ::
  "client \<Rightarrow> (nat \<times> string) list \<Rightarrow> jsval list \<Rightarrow> submission \<Rightarrow> error + event list"
where
  "send_loop c [] pending result = Inr []"
| "send_loop c ((key, tok) # rest) pending result =
     (let result' = result\<lparr>miner := tok\<rparr>;
          result'' = result'\<lparr>txs := txs_loop 0 pending (txs result')\<rparr>
      in case map_of (socket c) key of
           None \<Rightarrow> Inl TypeError
         | Some s \<Rightarrow>
             (case send_loop c rest pending result'' of
                Inl e \<Rightarrow> Inl e
              | Inr evs \<Rightarrow> Inr (SocketWrite key result'' # evs)))"

definition sendVirtualBlocks :: "client \<Rightarrow> submission \<Rightarrow> globals \<Rightarrow> error + globals \<times> event list" where
  "sendVirtualBlocks c result g =
     (case send_loop c (ids c) (gPendingVirtualBlocks g) result of
        Inl e \<Rightarrow> Inl e
      | Inr evs \<Rightarrow> Inr (g\<lparr>gPendingVirtualBlocks := []\<rparr>, evs))"

definition prepareToSendBlocks ::
  "client \<Rightarrow> jsval list \<Rightarrow> jsval \<Rightarrow> globals \<Rightarrow> error + globals \<times> event list"
where
  "prepareToSendBlocks c blocks result g =
     (case get_index result 0 of
        Inl e \<Rightarrow> Inl e
      | Inr sHeaderHash \<Rightarrow>
          (case get_index result 1 of
             Inl e \<Rightarrow> Inl e
           | Inr sSeedHash \<Rightarrow>
               (case get_index result 2 of
                  Inl e \<Rightarrow> Inl e
                | Inr sShareTarget \<Rightarrow>
                    sendVirtualBlocks c
                      \<lparr>rpc_id = 1, jsonrpc = ''2.0'', rpc_method = ''eth_submitWork'',
                       params = [sHeaderHash, sSeedHash, sShareTarget],
                       miner = [], virtualBlocks = blocks, txs = []\<rparr> g)))"

text \<open>
  \<open>vBlocks\<close> is what \<open>prepreVirtualBlocks\<close> returned: \<open>None\<close> is \<^verbatim>\<open>undefined\<close>, and an
  array has the type \<^verbatim>\<open>object\<close> and its \<^verbatim>\<open>length\<close>.
\<close>

definition submitVirtualBlocks ::
  "client \<Rightarrow> jsval list option \<Rightarrow> jsval \<Rightarrow> globals \<Rightarrow> error + globals \<times> event list"
where
  "submitVirtualBlocks c vBlocks result g =
     (case vBlocks of
        None \<Rightarrow> Inr (g, [])
      | Some bs \<Rightarrow>
          if length bs > 0 then
            prepareToSendBlocks c bs result
              (g\<lparr>gPendingVirtualBlocks := gPendingVirtualBlocks g @ [JArr bs]\<rparr>)
          else Inr (g, []))"

section \<open>The data handler\<close>

definition onData :: "env \<Rightarrow> client \<Rightarrow> string \<Rightarrow> globals \<Rightarrow> error + globals \<times> event list" where
  "onData E c payload g =
     (let obj = stratumDeserialize E (JStr payload) in
      if \<not> truthy obj then Inr (g, [])
      else
        case get_field obj ''id'' of
          Inl e \<Rightarrow> Inl e
        | Inr i \<Rightarrow>
            if typeof i = ''undefined'' then Inr (g, [])
            else
              (case get_field obj ''result'' of
                 Inl e \<Rightarrow> Inl e
               | Inr result \<Rightarrow>
                   (case onDataSetWork E payload g of
                      Inl e \<Rightarrow> Inl e
                    | Inr g' \<Rightarrow>
                        if typeof result = ''object'' then
                          (case get_index result 0 of
                             Inl e \<Rightarrow> Inl e
                           | Inr sHeaderHash \<Rightarrow>
                               (case get_index result 1 of
                                  Inl e \<Rightarrow> Inl e
                                | Inr sSeedHash \<Rightarrow>
                                    (case get_index result 2 of
                                       Inl e \<Rightarrow> Inl e
                                     | Inr sShareTarget \<Rightarrow>
                                         submitVirtualBlocks c (prepreVirtualBlocks E payload)
                                           result g')))
                        else Inr (g', []))))"

section \<open>Starting the client\<close>

text \<open>\<^verbatim>\<open>servers[id]\<close>: \<^verbatim>\<open>undefined\<close> outside the array.\<close>

definition js_nth :: "'a list \<Rightarrow> int \<Rightarrow> 'a option" where
  "js_nth xs i = (if 0 \<le> i \<and> i < int (length xs) then Some (xs ! nat i) else None)"

text \<open>
  \<open>token\<close> is the string \<^verbatim>\<open>'0x' + crypto.randomBytes(32).toString('hex')\<close> of this
  call. With no server at \<^verbatim>\<open>servers[id]\<close>, \<^verbatim>\<open>connect\<close> raises on \<^verbatim>\<open>server.host\<close>.
\<close>

definition startClientWithAppServer ::
  "string \<Rightarrow> options \<Rightarrow> client \<Rightarrow> error + client \<times> event list"
where
  "startClientWithAppServer token updatedOptions c =
     (let c1 = c\<lparr>workObjects := workObjects c @ [()]\<rparr>;
          i = serverId updatedOptions;
          srv = js_nth (servers updatedOptions) i;
          listen = ApiListen (host (apiServer updatedOptions)) (port (apiServer updatedOptions))
      in if i \<ge> 0 then
           (let c2 = c1\<lparr>ids := obj_set (ids c1) (nat i) token,
                        socket := obj_set (socket c1) (nat i) \<lparr>sock_server = srv\<rparr>\<rparr>
            in case srv of
                 None \<Rightarrow> Inl TypeError
               | Some s \<Rightarrow> Inr (c2, [SocketConnect (nat i) (host s) (port s), listen]))
         else Inr (c1, [listen]))"

text \<open>The submissions written, with the key of the socket each went to.\<close>

fun written :: "event list \<Rightarrow> (nat \<times> submission) list" where
  "written [] = []"
| "written (SocketWrite key s # evs) = (key, s) # written evs"
| "written (e # evs) = written evs"

text \<open>The peers connected to.\<close>

fun connected :: "event list \<Rightarrow> (nat \<times> string \<times> int) list" where
  "connected [] = []"
| "connected (SocketConnect key h p # evs) = (key, h, p) # connected evs"
| "connected (e # evs) = connected evs"

text \<open>
  Every key of \<^verbatim>\<open>ids\<close> has its socket: \<^verbatim>\<open>startClientWithAppServer\<close> sets both under the
  same key, and nothing else writes to either.
\<close>

definition tracked :: "client \<Rightarrow> bool" where
  "tracked c = list_all (\<lambda>k. map_of (socket c) k \<noteq> None) (map fst (ids c))"

section \<open>An implementation of the JSON built-ins\<close>

text \<open>
  A printer and a parser for the values above, to run the client on concrete chunks.
  \<open>json_ser\<close> writes what \<^verbatim>\<open>JSON.stringify\<close> writes with no indentation:
  \<^verbatim>\<open>undefined\<close> is \<^verbatim>\<open>null\<close> inside an array and is left out of an object. The parser
  reads the JSON grammar with integers for numbers and with escapes of code units below
  256, and keeps the members of an object in the order of the text. It takes fuel, one
  unit for each value and each element it enters, and is run with more fuel than the text
  has characters: enough for every text the printer writes (\<open>json_roundtrip\<close> below).
\<close>

fun join_comma :: "string list \<Rightarrow> string" where
  "join_comma [] = []"
| "join_comma [x] = x"
| "join_comma (x # y # ys) = x @ CHR '','' # join_comma (y # ys)"

definition hex_char :: "nat \<Rightarrow> char" where
  "hex_char n = (if n < 10 then char_of (48 + n) else char_of (87 + n))"

definition escape_char :: "char \<Rightarrow> string" where
  "escape_char c =
    (if c = CHR 0x22 then [CHR 0x5C, CHR 0x22]
     else if c = CHR 0x5C then [CHR 0x5C, CHR 0x5C]
     else if c = CHR 0x08 then [CHR 0x5C, CHR ''b'']
     else if c = CHR 0x0C then [CHR 0x5C, CHR ''f'']
     else if c = CHR 0x0A then [CHR 0x5C, CHR ''n'']
     else if c = CHR 0x0D then [CHR 0x5C, CHR ''r'']
     else if c = CHR 0x09 then [CHR 0x5C, CHR ''t'']
     else if of_char c < (32::nat) then
       [CHR 0x5C, CHR ''u'', CHR ''0'', CHR ''0'', hex_char (of_char c div 16), hex_char (of_char c mod 16)]
     else [c])"

definition quote :: "string \<Rightarrow> string" where
  "quote s = CHR 0x22 # concat (map escape_char s) @ [CHR 0x22]"

fun json_ser :: "jsval \<Rightarrow> string" where
  "json_ser JUndefined = ''null''"
| "json_ser JNull = ''null''"
| "json_ser (JBool b) = (if b then ''true'' else ''false'')"
| "json_ser (JNum n) = show_int n"
| "json_ser (JStr s) = quote s"
| "json_ser (JArr xs) = CHR ''['' # join_comma (map json_ser xs) @ '']''"
| "json_ser (JObj kvs) =
     CHR ''{'' # join_comma (map (\<lambda>kv. quote (fst kv) @ CHR '':'' # json_ser (snd kv))
                              (filter (\<lambda>kv. snd kv \<noteq> JUndefined) kvs)) @ ''}''"

definition is_json_ws :: "char \<Rightarrow> bool" where
  "is_json_ws c = (c = CHR 0x20 \<or> c = CHR 0x09 \<or> c = CHR 0x0A \<or> c = CHR 0x0D)"

fun skip_ws :: "string \<Rightarrow> string" where
  "skip_ws [] = []"
| "skip_ws (c # r) = (if is_json_ws c then skip_ws r else c # r)"

definition is_digit :: "char \<Rightarrow> bool" where
  "is_digit c = (48 \<le> (of_char c :: nat) \<and> (of_char c :: nat) \<le> 57)"

definition digit_val :: "char \<Rightarrow> nat" where
  "digit_val c = of_char c - 48"

definition hex_val :: "char \<Rightarrow> nat option" where
  "hex_val c =
     (let n = (of_char c :: nat) in
      if 48 \<le> n \<and> n \<le> 57 then Some (n - 48)
      else if 97 \<le> n \<and> n \<le> 102 then Some (n - 87)
      else if 65 \<le> n \<and> n \<le> 70 then Some (n - 55)
      else None)"

fun parse_digits :: "nat \<Rightarrow> string \<Rightarrow> nat \<times> string" where
  "parse_digits acc [] = (acc, [])"
| "parse_digits acc (c # r) =
     (if is_digit c then parse_digits (10 * acc + digit_val c) r else (acc, c # r))"

text \<open>A number with a fraction or an exponent is not an integer: the parser gives it up.\<close>

definition ends_number :: "string \<Rightarrow> bool" where
  "ends_number r =
     (case r of [] \<Rightarrow> True | c # _ \<Rightarrow> c \<noteq> CHR ''.'' \<and> c \<noteq> CHR ''e'' \<and> c \<noteq> CHR ''E'')"

definition parse_nat :: "string \<Rightarrow> (nat \<times> string) option" where
  "parse_nat s =
     (case s of
        [] \<Rightarrow> None
      | c # r \<Rightarrow>
          if c = CHR ''0'' then (if ends_number r then Some (0, r) else None)
          else if is_digit c then
            (case parse_digits 0 (c # r) of (n, r') \<Rightarrow> if ends_number r' then Some (n, r') else None)
          else None)"

definition parse_number :: "string \<Rightarrow> (jsval \<times> string) option" where
  "parse_number s =
     (case s of
        [] \<Rightarrow> None
      | c # r \<Rightarrow>
          if c = CHR ''-'' then map_option (\<lambda>(n, r'). (JNum (- int n), r')) (parse_nat r)
          else map_option (\<lambda>(n, r'). (JNum (int n), r')) (parse_nat s))"

definition unescape :: "char \<Rightarrow> char option" where
  "unescape e =
     (if e = CHR 0x22 then Some (CHR 0x22)
      else if e = CHR 0x5C then Some (CHR 0x5C)
      else if e = CHR ''/'' then Some (CHR ''/'')
      else if e = CHR ''b'' then Some (CHR 0x08)
      else if e = CHR ''f'' then Some (CHR 0x0C)
      else if e = CHR ''n'' then Some (CHR 0x0A)
      else if e = CHR ''r'' then Some (CHR 0x0D)
      else if e = CHR ''t'' then Some (CHR 0x09)
      else None)"

text \<open>The characters of a string literal after its opening quote, and the text after its closing quote.\<close>

fun parse_chars :: "string \<Rightarrow> (string \<times> string) option" where
  "parse_chars [] = None"
| "parse_chars (c # r) =
     (if c = CHR 0x22 then Some ([], r)
      else if c = CHR 0x5C then
        (case r of
           [] \<Rightarrow> None
         | e # r' \<Rightarrow>
             if e = CHR ''u'' then
               (case r' of
                  h1 # h2 # h3 # h4 # r'' \<Rightarrow>
                    (case (hex_val h1, hex_val h2, hex_val h3, hex_val h4) of
                       (Some a, Some b, Some c', Some d) \<Rightarrow>
                         if a = 0 \<and> b = 0
                         then map_option (\<lambda>(s, t). (char_of (16 * c' + d) # s, t)) (parse_chars r'')
                         else None
                     | _ \<Rightarrow> None)
                | _ \<Rightarrow> None)
             else
               (case unescape e of
                  None \<Rightarrow> None
                | Some x \<Rightarrow> map_option (\<lambda>(s, t). (x # s, t)) (parse_chars r')))
      else if of_char c < (32::nat) then None
      else map_option (\<lambda>(s, t). (c # s, t)) (parse_chars r))"

fun expect :: "string \<Rightarrow> string \<Rightarrow> string option" where
  "expect [] s = Some s"
| "expect (c # cs) [] = None"
| "expect (c # cs) (d # s) = (if c = d then expect cs s else None)"

text \<open>A key written twice keeps its first place and its last value.\<close>

fun obj_put :: "(string \<times> jsval) list \<Rightarrow> string \<Rightarrow> jsval \<Rightarrow> (string \<times> jsval) list" where
  "obj_put [] k v = [(k, v)]"
| "obj_put ((k', v') # r) k v = (if k' = k then (k, v) # r else (k', v') # obj_put r k v)"

fun parse_value :: "nat \<Rightarrow> string \<Rightarrow> (jsval \<times> string) option"
  and parse_elems :: "nat \<Rightarrow> string \<Rightarrow> (jsval list \<times> string) option"
  and parse_members :: "nat \<Rightarrow> string \<Rightarrow> ((string \<times> jsval) list \<times> string) option"
where
  "parse_value 0 s = None"
| "parse_value (Suc n) s =
     (case skip_ws s of
        [] \<Rightarrow> None
      | c # r \<Rightarrow>
          if c = CHR ''['' then
            (case skip_ws r of
               [] \<Rightarrow> None
             | d # r' \<Rightarrow>
                 if d = CHR '']'' then Some (JArr [], r')
                 else map_option (\<lambda>(vs, t). (JArr vs, t)) (parse_elems n r))
          else if c = CHR ''{'' then
            (case skip_ws r of
               [] \<Rightarrow> None
             | d # r' \<Rightarrow>
                 if d = CHR ''}'' then Some (JObj [], r')
                 else map_option (\<lambda>(kvs, t). (JObj (foldl (\<lambda>acc (k, v). obj_put acc k v) [] kvs), t))
                        (parse_members n r))
          else if c = CHR 0x22 then map_option (\<lambda>(x, t). (JStr x, t)) (parse_chars r)
          else if c = CHR ''t'' then map_option (\<lambda>t. (JBool True, t)) (expect ''rue'' r)
          else if c = CHR ''f'' then map_option (\<lambda>t. (JBool False, t)) (expect ''alse'' r)
          else if c = CHR ''n'' then map_option (\<lambda>t. (JNull, t)) (expect ''ull'' r)
          else parse_number (c # r))"
| "parse_elems 0 s = None"
| "parse_elems (Suc n) s =
     (case parse_value n s of
        None \<Rightarrow> None
      | Some (v, r) \<Rightarrow>
          (case skip_ws r of
             [] \<Rightarrow> None
           | c # r' \<Rightarrow>
               if c = CHR '']'' then Some ([v], r')
               else if c = CHR '','' then map_option (\<lambda>(vs, t). (v # vs, t)) (parse_elems n r')
               else None))"
| "parse_members 0 s = None"
| "parse_members (Suc n) s =
     (case skip_ws s of
        [] \<Rightarrow> None
      | q # r0 \<Rightarrow>
          if q \<noteq> CHR 0x22 then None
          else
            (case parse_chars r0 of
               None \<Rightarrow> None
             | Some (k, r1) \<Rightarrow>
                 (case skip_ws r1 of
                    [] \<Rightarrow> None
                  | col # r2 \<Rightarrow>
                      if col \<noteq> CHR '':'' then None
                      else
                        (case parse_value n r2 of
                           None \<Rightarrow> None
                         | Some (v, r3) \<Rightarrow>
                             (case skip_ws r3 of
                                [] \<Rightarrow> None
                              | c # r4 \<Rightarrow>
                                  if c = CHR ''}'' then Some ([(k, v)], r4)
                                  else if c = CHR '','' then
                                    map_option (\<lambda>(kvs, t). ((k, v) # kvs, t)) (parse_members n r4)
                                  else None)))))"

definition json_parse :: "string \<Rightarrow> jsval option" where
  "json_parse s =
     (case parse_value (Suc (length s)) s of
        None \<Rightarrow> None
      | Some (v, r) \<Rightarrow> if skip_ws r = [] then Some v else None)"

text \<open>
  The values \<open>json_parse\<close> can return: no \<^verbatim>\<open>undefined\<close> inside, no key twice in an
  object. \<open>need\<close> is fuel enough to parse the text of a value, \<open>delim\<close> holds of
  what may follow a value in a text, \<open>starts_value\<close> of a text that starts with the
  first character of a value, and \<open>member_text\<close> is the text of one member of an
  object.
\<close>

fun json_clean :: "jsval \<Rightarrow> bool" where
  "json_clean JUndefined = False"
| "json_clean (JArr xs) = list_all json_clean xs"
| "json_clean (JObj kvs) = (distinct (map fst kvs) \<and> list_all (\<lambda>kv. json_clean (snd kv)) kvs)"
| "json_clean v = True"

fun need :: "jsval \<Rightarrow> nat" where
  "need (JArr xs) = Suc (sum_list (map (\<lambda>x. Suc (need x)) xs))"
| "need (JObj kvs) = Suc (sum_list (map (\<lambda>kv. Suc (need (snd kv))) kvs))"
| "need v = 1"

definition starts_value :: "string \<Rightarrow> bool" where
  "starts_value t =
     (\<exists>c s. t = c # s \<and> \<not> is_json_ws c \<and> c \<noteq> CHR '']'' \<and> c \<noteq> CHR ''}'' \<and> c \<noteq> CHR '','')"

definition delim :: "string \<Rightarrow> bool" where
  "delim r = (case r of [] \<Rightarrow> True | c # _ \<Rightarrow> c = CHR '','' \<or> c = CHR '']'' \<or> c = CHR ''}'')"

definition member_text :: "string \<times> jsval \<Rightarrow> string" where
  "member_text kv = quote (fst kv) @ CHR '':'' # json_ser (snd kv)"

definition node_env :: "(string \<Rightarrow> jsval list option) \<Rightarrow> env" where
  "node_env lam = \<lparr>JSON_parse = json_parse, JSON_stringify = json_ser, prepreVirtualBlocks = lam\<rparr>"

section \<open>Sample data\<close>

text \<open>The work message of the spec's end-to-end scenario, as it arrives and as it parses.\<close>

definition sample_work :: string where
  \<open>sample_work = ''{"id":1,"jsonrpc":"2.0","result":["0xAA","0xBB","0xCC"]}''\<close>

definition sample_msg :: jsval where
  "sample_msg =
     JObj [(''id'', JNum 1), (''jsonrpc'', JStr ''2.0''),
           (''result'', JArr [JStr ''0xAA'', JStr ''0xBB'', JStr ''0xCC''])]"

text \<open>An earlier work message, with a field the sample has not.\<close>

definition earlier_msg :: jsval where
  "earlier_msg =
     JObj [(''id'', JNum 7), (''jsonrpc'', JStr ''2.0''),
           (''result'', JArr [JStr ''0x11'', JStr ''0x22'', JStr ''0x33'']),
           (''error'', JNull)]"

text \<open>The sample without its \<^verbatim>\<open>id\<close>, and two messages in one chunk.\<close>

definition anonymous_work :: string where
  \<open>anonymous_work = ''{"jsonrpc":"2.0","result":["0xAA","0xBB","0xCC"]}''\<close>

definition second_work :: string where
  \<open>second_work = ''{"id":2,"jsonrpc":"2.0","result":["0xDD","0xEE","0xFF"]}''\<close>

definition second_msg :: jsval where
  "second_msg =
     JObj [(''id'', JNum 2), (''jsonrpc'', JStr ''2.0''),
           (''result'', JArr [JStr ''0xDD'', JStr ''0xEE'', JStr ''0xFF''])]"

definition sample_lambda :: "string \<Rightarrow> jsval list option" where
  "sample_lambda payload = Some [JStr ''vb0'', JStr ''vb1'']"

definition sample_env :: env where
  "sample_env = node_env sample_lambda"

definition peer_a :: server where
  "peer_a = \<lparr>host = ''a.pool.example'', port = 8008, server_id = 0\<rparr>"

definition peer_b :: server where
  "peer_b = \<lparr>host = ''b.pool.example'', port = 8009, server_id = 1\<rparr>"

definition sample_options :: "int \<Rightarrow> options" where
  "sample_options i =
     \<lparr>serverId = i, servers = [peer_a, peer_b],
      apiServer = \<lparr>host = ''localhost'', port = 55752\<rparr>\<rparr>"

text \<open>A client after a start for the first peer alone.\<close>

definition one_peer :: client where
  "one_peer =
     \<lparr>ids = [(0, ''0xa1'')], socket = [(0, \<lparr>sock_server = Some peer_a\<rparr>)],
      workObjects = [()]\<rparr>"

text \<open>A client after a start for each of the two peers.\<close>

definition two_peers :: client where
  "two_peers =
     \<lparr>ids = [(0, ''0xa1''), (1, ''0xb2'')],
      socket = [(0, \<lparr>sock_server = Some peer_a\<rparr>), (1, \<lparr>sock_server = Some peer_b\<rparr>)],
      workObjects = [(), ()]\<rparr>"

text \<open>A state of the module with a work record and a batch waiting.\<close>

definition busy_globals :: globals where
  "busy_globals =
     \<lparr>gCurrentWork = JObj [(''work'', JStr (json_ser earlier_msg))],
      gPendingVirtualBlocks = [JArr [JStr ''vb9'']]\<rparr>"

text \<open>A submission as \<^verbatim>\<open>prepareToSendBlocks\<close> builds it, and a state with two batches waiting.\<close>

definition sample_submission :: submission where
  "sample_submission =
     \<lparr>rpc_id = 1, jsonrpc = ''2.0'', rpc_method = ''eth_submitWork'',
      params = [JStr ''0xAA'', JStr ''0xBB'', JStr ''0xCC''],
      miner = [], virtualBlocks = [JStr ''vb0'', JStr ''vb1''], txs = []\<rparr>"

definition queued_globals :: globals where
  "queued_globals =
     \<lparr>gCurrentWork = JObj [(''work'', JStr sample_work)],
      gPendingVirtualBlocks = [JArr [JStr ''b1''], JArr [JStr ''b2'']]\<rparr>"



section \<open>Facts about the JSON implementation\<close>

lemma is_digit_digit_char: "n < 10 \<Longrightarrow> is_digit (digit_char n)"
  by (simp add: is_digit_def)

lemma digit_val_digit_char: "n < 10 \<Longrightarrow> digit_val (digit_char n) = n"
  by (simp add: digit_val_def)

lemma show_nat_unfold: "show_nat n = (if n < 10 then [digit_char n] else show_nat (n div 10) @ [digit_char (n mod 10)])"
  by (rule show_nat.simps)

lemma parse_digits_show_nat:
  "parse_digits acc (show_nat n @ r) = parse_digits (acc * 10 ^ length (show_nat n) + n) r"
proof (induction n arbitrary: acc r rule: show_nat.induct)
  case (1 n)
  show ?case
  proof (cases "n < 10")
    case True
    then show ?thesis
      by (subst (1 2) show_nat_unfold) (simp add: is_digit_def digit_val_def mult.commute)
  next
    case False
    have m: "n mod 10 < 10" by simp
    have "parse_digits acc (show_nat n @ r)
            = parse_digits acc (show_nat (n div 10) @ digit_char (n mod 10) # r)"
      using False by (subst show_nat_unfold) simp
    also have "\<dots> = parse_digits (acc * 10 ^ length (show_nat (n div 10)) + n div 10) (digit_char (n mod 10) # r)"
      using "1.IH" [OF False] .
    also have "\<dots> = parse_digits (10 * (acc * 10 ^ length (show_nat (n div 10)) + n div 10) + n mod 10) r"
      using is_digit_digit_char [OF m] digit_val_digit_char [OF m] by (simp del: digit_char.simps)
    also have "10 * (acc * 10 ^ length (show_nat (n div 10)) + n div 10) + n mod 10
                 = acc * 10 ^ length (show_nat n) + n"
      using False by (subst (2) show_nat_unfold) (simp add: algebra_simps)
    finally show ?thesis .
  qed
qed

lemma delim_digits: "delim r \<Longrightarrow> parse_digits k r = (k, r)"
  by (cases r) (auto simp: delim_def is_digit_def)

lemma delim_ends: "delim r \<Longrightarrow> ends_number r"
  by (cases r) (auto simp: delim_def ends_number_def)

lemma show_nat_first:
  "\<exists>c s. show_nat n = c # s \<and> is_digit c \<and> (0 < n \<longrightarrow> c \<noteq> CHR ''0'')"
proof (induction n rule: show_nat.induct)
  case (1 n)
  show ?case
  proof (cases "n < 10")
    case True
    then have "show_nat n = [digit_char n]"
      by (subst show_nat_unfold) simp
    moreover have "0 < n \<longrightarrow> digit_char n \<noteq> CHR ''0''"
    proof
      assume "0 < n"
      with True have "(of_char (digit_char n) :: nat) \<noteq> of_char (CHR ''0'')"
        by simp
      then show "digit_char n \<noteq> CHR ''0''" by metis
    qed
    ultimately show ?thesis
      using is_digit_digit_char [OF True] by simp
  next
    case False
    then have pos: "0 < n div 10" by simp
    from "1.IH" [OF False] pos obtain c s where "show_nat (n div 10) = c # s" "is_digit c" "c \<noteq> CHR ''0''"
      by blast
    then show ?thesis
      using False by (subst show_nat_unfold) simp
  qed
qed

lemma parse_nat_show_nat:
  assumes "delim r"
  shows "parse_nat (show_nat n @ r) = Some (n, r)"
proof (cases "n = 0")
  case True
  have "show_nat 0 = ''0''"
    by code_simp
  then show ?thesis
    using True delim_ends [OF assms] by (simp add: parse_nat_def)
next
  case False
  then obtain c s where cs: "show_nat n = c # s" and d: "is_digit c" and z: "c \<noteq> CHR ''0''"
    using show_nat_first [of n] by auto
  have "parse_digits 0 (show_nat n @ r) = (n, r)"
    by (simp add: parse_digits_show_nat delim_digits [OF assms])
  then have "parse_digits 0 (c # s @ r) = (n, r)"
    by (simp add: cs)
  then show ?thesis
    using d z delim_ends [OF assms] by (simp add: parse_nat_def cs)
qed

lemma parse_number_show_int:
  assumes "delim r"
  shows "parse_number (show_int i @ r) = Some (JNum i, r)"
proof (cases "i < 0")
  case True
  then show ?thesis
    by (simp add: show_int_def parse_number_def parse_nat_show_nat [OF assms])
next
  case False
  obtain c s where cs: "show_nat (nat i) = c # s" and d: "is_digit c"
    using show_nat_first [of "nat i"] by auto
  have m: "c \<noteq> CHR ''-''"
    using d by (auto simp: is_digit_def)
  have "parse_nat (c # s @ r) = Some (nat i, r)"
    using parse_nat_show_nat [OF assms, of "nat i"] by (simp add: cs)
  then show ?thesis
    using False m by (simp add: show_int_def parse_number_def cs)
qed

lemma hex_val_hex_char: "d < 16 \<Longrightarrow> hex_val (hex_char d) = Some d"
  by (auto simp: hex_val_def hex_char_def Let_def)

lemma hex_val_zero: "hex_val (CHR ''0'') = Some 0"
  by (simp add: hex_val_def)

lemma parse_chars_step:
  assumes "parse_chars rest = Some (s, r)"
  shows "parse_chars (escape_char c @ rest) = Some (c # s, r)"
proof -
  consider (short) "c = CHR 0x22 \<or> c = CHR 0x5C \<or> c = CHR 0x08 \<or> c = CHR 0x0C \<or> c = CHR 0x0A
      \<or> c = CHR 0x0D \<or> c = CHR 0x09"
    | (ctl) "c \<noteq> CHR 0x22" "c \<noteq> CHR 0x5C" "c \<noteq> CHR 0x08" "c \<noteq> CHR 0x0C" "c \<noteq> CHR 0x0A"
        "c \<noteq> CHR 0x0D" "c \<noteq> CHR 0x09" "(of_char c :: nat) < 32"
    | (raw) "c \<noteq> CHR 0x22" "c \<noteq> CHR 0x5C" "\<not> (of_char c :: nat) < 32"
    by (cases "(of_char c :: nat) < 32") auto
  then show ?thesis
  proof cases
    case short
    then show ?thesis
      using assms by (auto simp: escape_char_def unescape_def)
  next
    case ctl
    have d: "(of_char c :: nat) div 16 < 16" "(of_char c :: nat) mod 16 < 16"
      using ctl(8) by simp_all
    have e: "escape_char c = [CHR 0x5C, CHR ''u'', CHR ''0'', CHR ''0'',
        hex_char (of_char c div 16), hex_char (of_char c mod 16)]"
      using ctl by (simp add: escape_char_def)
    show ?thesis
      using assms by (simp add: e hex_val_zero hex_val_hex_char [OF d(1)] hex_val_hex_char [OF d(2)])
  next
    case raw
    then have "escape_char c = [c]"
      by (auto simp: escape_char_def)
    then show ?thesis
      using assms raw by simp
  qed
qed

lemma parse_chars_escaped:
  "parse_chars (concat (map escape_char s) @ CHR 0x22 # r) = Some (s, r)"
  by (induction s) (simp_all add: parse_chars_step)

lemma show_int_first: "\<exists>c s. show_int i = c # s \<and> (c = CHR ''-'' \<or> is_digit c)"
  using show_nat_first [of "nat i"] by (auto simp: show_int_def)

lemma is_digit_cases:
  "is_digit c \<Longrightarrow> \<not> is_json_ws c \<and> c \<noteq> CHR ''['' \<and> c \<noteq> CHR ''{'' \<and> c \<noteq> CHR 0x22 \<and> c \<noteq> CHR ''t''
     \<and> c \<noteq> CHR ''f'' \<and> c \<noteq> CHR ''n'' \<and> c \<noteq> CHR '']'' \<and> c \<noteq> CHR ''}'' \<and> c \<noteq> CHR '',''"
  by (auto simp: is_digit_def is_json_ws_def)

lemma starts_value_Cons:
  "starts_value (c # s) = (\<not> is_json_ws c \<and> c \<noteq> CHR '']'' \<and> c \<noteq> CHR ''}'' \<and> c \<noteq> CHR '','')"
  by (simp add: starts_value_def)

lemma dash_or_digit_starts:
  assumes "c = CHR ''-'' \<or> is_digit c"
  shows "starts_value (c # s)"
proof (cases "c = CHR ''-''")
  case True
  then show ?thesis by (simp add: starts_value_Cons is_json_ws_def)
next
  case False
  with assms have "is_digit c" by simp
  from is_digit_cases [OF this] show ?thesis by (simp add: starts_value_Cons)
qed

lemma json_ser_starts: "starts_value (json_ser v @ r)"
proof (cases v)
  case JUndefined
  then show ?thesis by (simp add: starts_value_Cons is_json_ws_def)
next
  case JNull
  then show ?thesis by (simp add: starts_value_Cons is_json_ws_def)
next
  case (JBool b)
  then show ?thesis by (cases b) (simp_all add: starts_value_Cons is_json_ws_def)
next
  case (JNum i)
  obtain c s where "show_int i = c # s" "c = CHR ''-'' \<or> is_digit c"
    using show_int_first by blast
  then show ?thesis
    using dash_or_digit_starts [of c "s @ r"] by (simp add: JNum)
next
  case (JStr s)
  then show ?thesis by (simp add: starts_value_Cons is_json_ws_def quote_def)
next
  case (JArr xs)
  then show ?thesis by (simp add: starts_value_Cons is_json_ws_def)
next
  case (JObj kvs)
  then show ?thesis by (simp add: starts_value_Cons is_json_ws_def)
qed

lemma starts_value_skip:
  assumes "starts_value t"
  shows "\<exists>c s. t = c # s \<and> skip_ws t = c # s \<and> c \<noteq> CHR '']'' \<and> c \<noteq> CHR ''}''"
  using assms by (auto simp: starts_value_def)

lemma join_comma_Cons: "xs \<noteq> [] \<Longrightarrow> join_comma (x # xs) = x @ CHR '','' # join_comma xs"
  by (cases xs) simp_all

lemma parse_value_number:
  assumes "delim r"
  shows "parse_value (Suc n) (show_int i @ r) = Some (JNum i, r)"
proof -
  obtain c s where cs: "show_int i = c # s" and c: "c = CHR ''-'' \<or> is_digit c"
    using show_int_first by blast
  have "parse_number (c # s @ r) = Some (JNum i, r)"
    using parse_number_show_int [OF assms, of i] by (simp add: cs)
  moreover have "\<not> is_json_ws c \<and> c \<noteq> CHR ''['' \<and> c \<noteq> CHR ''{'' \<and> c \<noteq> CHR 0x22 \<and> c \<noteq> CHR ''t''
     \<and> c \<noteq> CHR ''f'' \<and> c \<noteq> CHR ''n''"
  proof (cases "c = CHR ''-''")
    case True
    then show ?thesis by (simp add: is_json_ws_def)
  next
    case False
    with c have "is_digit c" by simp
    from is_digit_cases [OF this] show ?thesis by simp
  qed
  ultimately show ?thesis
    by (simp add: cs)
qed

lemma parse_value_string: "parse_value (Suc n) (quote s @ r) = Some (JStr s, r)"
  by (simp add: quote_def is_json_ws_def parse_chars_escaped)

lemma parse_elems_step:
  assumes "parse_value m (json_ser x @ rest) = Some (x, rest)"
  shows "parse_elems (Suc m) (json_ser x @ rest) =
     (case skip_ws rest of
        [] \<Rightarrow> None
      | c # r' \<Rightarrow>
          if c = CHR '']'' then Some ([x], r')
          else if c = CHR '','' then map_option (\<lambda>(vs, t). (x # vs, t)) (parse_elems m r')
          else None)"
  by (simp add: assms)

lemma parse_elems_ser:
  assumes "\<And>x n r. x \<in> set xs \<Longrightarrow> need x \<le> n \<Longrightarrow> delim r \<Longrightarrow>
             parse_value n (json_ser x @ r) = Some (x, r)"
    and "xs \<noteq> []"
    and "sum_list (map (\<lambda>x. Suc (need x)) xs) \<le> n"
  shows "parse_elems n (join_comma (map json_ser xs) @ CHR '']'' # r) = Some (xs, r)"
  using assms
proof (induction xs arbitrary: n)
  case Nil
  then show ?case by simp
next
  case (Cons x xs)
  from Cons.prems(3) obtain m where n: "n = Suc m" and m: "need x + sum_list (map (\<lambda>x. Suc (need x)) xs) \<le> m"
    by (cases n) auto
  show ?case
  proof (cases "xs = []")
    case True
    have "parse_value m (json_ser x @ CHR '']'' # r) = Some (x, CHR '']'' # r)"
      using m by (intro Cons.prems(1)) (simp_all add: delim_def)
    from parse_elems_step [OF this] show ?thesis
      by (simp add: n True is_json_ws_def)
  next
    case False
    let ?rest = "join_comma (map json_ser xs) @ CHR '']'' # r"
    have "parse_value m (json_ser x @ CHR '','' # ?rest) = Some (x, CHR '','' # ?rest)"
      using m by (intro Cons.prems(1)) (simp_all add: delim_def)
    from parse_elems_step [OF this]
    have "parse_elems (Suc m) (json_ser x @ CHR '','' # ?rest)
            = map_option (\<lambda>(vs, t). (x # vs, t)) (parse_elems m ?rest)"
      by (simp add: is_json_ws_def)
    moreover have "parse_elems m ?rest = Some (xs, r)"
      using m Cons.prems(1) False by (intro Cons.IH) simp_all
    ultimately show ?thesis
      using False by (simp add: n join_comma_Cons)
  qed
qed

lemma parse_members_step:
  assumes "parse_value m (json_ser v @ rest) = Some (v, rest)"
  shows "parse_members (Suc m) (member_text (k, v) @ rest) =
     (case skip_ws rest of
        [] \<Rightarrow> None
      | c # r' \<Rightarrow>
          if c = CHR ''}'' then Some ([(k, v)], r')
          else if c = CHR '','' then map_option (\<lambda>(kvs, t). ((k, v) # kvs, t)) (parse_members m r')
          else None)"
  by (simp add: member_text_def quote_def is_json_ws_def parse_chars_escaped assms)

lemma parse_members_ser:
  assumes "\<And>k v n r. (k, v) \<in> set kvs \<Longrightarrow> need v \<le> n \<Longrightarrow> delim r \<Longrightarrow>
             parse_value n (json_ser v @ r) = Some (v, r)"
    and "kvs \<noteq> []"
    and "sum_list (map (\<lambda>kv. Suc (need (snd kv))) kvs) \<le> n"
  shows "parse_members n (join_comma (map member_text kvs) @ CHR ''}'' # r) = Some (kvs, r)"
  using assms
proof (induction kvs arbitrary: n)
  case Nil
  then show ?case by simp
next
  case (Cons kv kvs)
  obtain k v where kv: "kv = (k, v)" by (cases kv)
  from Cons.prems(3) obtain m where n: "n = Suc m"
    and m: "need v + sum_list (map (\<lambda>kv. Suc (need (snd kv))) kvs) \<le> m"
    by (cases n) (auto simp: kv)
  show ?case
  proof (cases "kvs = []")
    case True
    have "parse_value m (json_ser v @ CHR ''}'' # r) = Some (v, CHR ''}'' # r)"
      using m by (intro Cons.prems(1) [of k]) (simp_all add: delim_def kv)
    from parse_members_step [OF this, of k] show ?thesis
      by (simp add: n True kv is_json_ws_def)
  next
    case False
    let ?rest = "join_comma (map member_text kvs) @ CHR ''}'' # r"
    have "parse_value m (json_ser v @ CHR '','' # ?rest) = Some (v, CHR '','' # ?rest)"
      using m by (intro Cons.prems(1) [of k]) (simp_all add: delim_def kv)
    from parse_members_step [OF this, of k]
    have "parse_members (Suc m) (member_text (k, v) @ CHR '','' # ?rest)
            = map_option (\<lambda>(kvs, t). ((k, v) # kvs, t)) (parse_members m ?rest)"
      by (simp add: is_json_ws_def)
    moreover have "parse_members m ?rest = Some (kvs, r)"
      using m Cons.prems(1) False by (intro Cons.IH) auto
    ultimately show ?thesis
      using False by (simp add: n kv join_comma_Cons)
  qed
qed

lemma obj_put_fresh: "k \<notin> fst ` set acc \<Longrightarrow> obj_put acc k v = acc @ [(k, v)]"
  by (induction acc) auto

lemma foldl_obj_put:
  "distinct (map fst (acc @ kvs)) \<Longrightarrow> foldl (\<lambda>acc (k, v). obj_put acc k v) acc kvs = acc @ kvs"
proof (induction kvs arbitrary: acc)
  case Nil
  then show ?case by simp
next
  case (Cons kv kvs)
  obtain k v where kv: "kv = (k, v)" by (cases kv)
  have "obj_put acc k v = acc @ [(k, v)]"
    using Cons.prems by (intro obj_put_fresh) (auto simp: kv)
  moreover have "distinct (map fst ((acc @ [(k, v)]) @ kvs))"
    using Cons.prems by (simp add: kv)
  ultimately show ?case
    using Cons.IH [of "acc @ [(k, v)]"] by (simp add: kv)
qed

lemma json_ser_obj:
  assumes "list_all (\<lambda>kv. json_clean (snd kv)) kvs"
  shows "json_ser (JObj kvs) = CHR ''{'' # join_comma (map member_text kvs) @ ''}''"
proof -
  have "filter (\<lambda>kv. snd kv \<noteq> JUndefined) kvs = kvs"
    using assms by (induction kvs) auto
  moreover have "(\<lambda>kv. quote (fst kv) @ CHR '':'' # json_ser (snd kv)) = member_text"
    by (simp add: member_text_def fun_eq_iff)
  ultimately show ?thesis
    by simp
qed

lemma parse_value_array:
  assumes "xs \<noteq> []"
    and "parse_elems m (join_comma (map json_ser xs) @ CHR '']'' # r) = Some (xs, r)"
  shows "parse_value (Suc m) (json_ser (JArr xs) @ r) = Some (JArr xs, r)"
proof -
  let ?rest = "join_comma (map json_ser xs) @ CHR '']'' # r"
  from assms(1) obtain x ys where xs: "xs = x # ys"
    by (cases xs) auto
  have "starts_value ?rest"
  proof (cases "ys = []")
    case True
    then show ?thesis
      using json_ser_starts [of x "CHR '']'' # r"] by (simp add: xs)
  next
    case False
    then show ?thesis
      using json_ser_starts [of x "CHR '','' # join_comma (map json_ser ys) @ CHR '']'' # r"]
      by (simp add: xs join_comma_Cons)
  qed
  then obtain c s where "?rest = c # s" "skip_ws ?rest = c # s" "c \<noteq> CHR '']''"
    using starts_value_skip by blast
  then show ?thesis
    using assms(2) by (simp add: is_json_ws_def)
qed

lemma parse_value_object:
  assumes "kvs \<noteq> []"
    and "distinct (map fst kvs)"
    and "parse_members m (join_comma (map member_text kvs) @ CHR ''}'' # r) = Some (kvs, r)"
  shows "parse_value (Suc m) (CHR ''{'' # join_comma (map member_text kvs) @ CHR ''}'' # r)
           = Some (JObj kvs, r)"
proof -
  let ?rest = "join_comma (map member_text kvs) @ CHR ''}'' # r"
  from assms(1) obtain kv ys where kvs: "kvs = kv # ys"
    by (cases kvs) auto
  have "\<exists>s. ?rest = CHR 0x22 # s"
    by (cases "ys = []") (simp_all add: kvs join_comma_Cons member_text_def quote_def)
  then obtain s where s: "?rest = CHR 0x22 # s"
    by blast
  have f: "foldl (\<lambda>acc (k, v). obj_put acc k v) [] kvs = kvs"
    using foldl_obj_put [of "[]" kvs] assms(2) by simp
  have "skip_ws ?rest = CHR 0x22 # s"
    by (simp add: s is_json_ws_def)
  then show ?thesis
    using assms(3) by (simp add: is_json_ws_def f)
qed

lemma parse_value_ser:
  "json_clean v \<Longrightarrow> need v \<le> n \<Longrightarrow> delim r \<Longrightarrow> parse_value n (json_ser v @ r) = Some (v, r)"
proof (induction v arbitrary: n r)
  case JUndefined
  then show ?case by simp
next
  case JNull
  then obtain m where "n = Suc m" by (cases n) auto
  then show ?case by (simp add: is_json_ws_def)
next
  case (JBool b)
  then obtain m where "n = Suc m" by (cases n) auto
  then show ?case by (cases b) (simp_all add: is_json_ws_def)
next
  case (JNum i)
  then obtain m where n: "n = Suc m" by (cases n) auto
  from parse_value_number [OF JNum.prems(3), of m i] show ?case
    by (simp only: n json_ser.simps)
next
  case (JStr s)
  then obtain m where n: "n = Suc m" by (cases n) auto
  from parse_value_string [of m s r] show ?case
    by (simp only: n json_ser.simps)
next
  case (JArr xs)
  from JArr.prems(2) obtain m where n: "n = Suc m" and m: "sum_list (map (\<lambda>x. Suc (need x)) xs) \<le> m"
    by (cases n) auto
  show ?case
  proof (cases "xs = []")
    case True
    then show ?thesis by (simp add: n is_json_ws_def)
  next
    case False
    have "parse_elems m (join_comma (map json_ser xs) @ CHR '']'' # r) = Some (xs, r)"
    proof (rule parse_elems_ser [OF _ False m])
      fix x k t
      assume "x \<in> set xs" "need x \<le> k" "delim t"
      with JArr.IH [of x k t] JArr.prems(1) show "parse_value k (json_ser x @ t) = Some (x, t)"
        by (simp add: list_all_iff)
    qed
    from parse_value_array [OF False this] show ?thesis
      by (simp only: n)
  qed
next
  case (JObj kvs)
  from JObj.prems(2) obtain m where n: "n = Suc m"
    and m: "sum_list (map (\<lambda>kv. Suc (need (snd kv))) kvs) \<le> m"
    by (cases n) auto
  from JObj.prems(1) have d: "distinct (map fst kvs)" and c: "list_all (\<lambda>kv. json_clean (snd kv)) kvs"
    by simp_all
  show ?case
  proof (cases "kvs = []")
    case True
    then show ?thesis by (simp add: n is_json_ws_def)
  next
    case False
    have "parse_members m (join_comma (map member_text kvs) @ CHR ''}'' # r) = Some (kvs, r)"
    proof (rule parse_members_ser [OF _ False m])
      fix k v j t
      assume kv: "(k, v) \<in> set kvs" and "need v \<le> j" "delim t"
      moreover from kv c have "json_clean v"
        by (auto simp: list_all_iff)
      moreover from kv have "v \<in> Basic_BNFs.snds (k, v)"
        by simp
      ultimately show "parse_value j (json_ser v @ t) = Some (v, t)"
        using JObj.IH [of "(k, v)" v j t] by simp
    qed
    from parse_value_object [OF False d this] show ?thesis
      unfolding n json_ser_obj [OF c] by simp
  qed
qed

lemma length_join_comma:
  "ss \<noteq> [] \<Longrightarrow> sum_list (map (\<lambda>s. Suc (length s)) ss) = Suc (length (join_comma ss))"
  by (induction ss rule: join_comma.induct) simp_all

lemma json_ser_nonempty: "0 < length (json_ser v)"
proof (cases v)
  case (JNum i)
  then show ?thesis using show_int_first [of i] by auto
qed (auto simp: quote_def)

lemma need_le_length: "json_clean v \<Longrightarrow> need v \<le> length (json_ser v)"
proof (induction v)
  case (JArr xs)
  show ?case
  proof (cases "xs = []")
    case True
    then show ?thesis by simp
  next
    case False
    have "sum_list (map (\<lambda>x. Suc (need x)) xs) \<le> sum_list (map (\<lambda>s. Suc (length s)) (map json_ser xs))"
      unfolding map_map using JArr.IH JArr.prems
      by (intro sum_list_mono) (auto simp: list_all_iff)
    also have "\<dots> = Suc (length (join_comma (map json_ser xs)))"
      using False by (intro length_join_comma) simp
    finally show ?thesis by simp
  qed
next
  case (JObj kvs)
  from JObj.prems have c: "list_all (\<lambda>kv. json_clean (snd kv)) kvs"
    by simp
  show ?case
  proof (cases "kvs = []")
    case True
    then show ?thesis by simp
  next
    case False
    have "need (snd kv) \<le> length (member_text kv)" if "kv \<in> set kvs" for kv
    proof -
      obtain k v where kv: "kv = (k, v)" by (cases kv)
      from that c have "json_clean v"
        by (auto simp: list_all_iff kv)
      with JObj.IH [of kv v] that have "need v \<le> length (json_ser v)"
        by (simp add: kv)
      then show ?thesis
        by (simp add: kv member_text_def)
    qed
    then have "sum_list (map (\<lambda>kv. Suc (need (snd kv))) kvs)
        \<le> sum_list (map (\<lambda>s. Suc (length s)) (map member_text kvs))"
      unfolding map_map by (intro sum_list_mono) auto
    also have "\<dots> = Suc (length (join_comma (map member_text kvs)))"
      using False by (intro length_join_comma) simp
    finally show ?thesis
      unfolding json_ser_obj [OF c] by simp
  qed
next
  case (JNum i)
  then show ?case using json_ser_nonempty [of "JNum i"] by (simp add: Suc_le_eq)
qed (simp_all add: quote_def)

text \<open>Printing a value that holds no \<^verbatim>\<open>undefined\<close> and no key twice, and parsing the text, gives the value back.\<close>

theorem json_roundtrip: "json_clean v \<Longrightarrow> json_parse (json_ser v) = Some v"
proof -
  assume c: "json_clean v"
  have "need v \<le> Suc (length (json_ser v))"
    using need_le_length [OF c] by simp
  from parse_value_ser [OF c this, of "[]"] show ?thesis
    by (simp add: json_parse_def delim_def)
qed

lemma node_env_roundtrip:
  "json_clean v \<Longrightarrow> JSON_parse (node_env lam) (JSON_stringify (node_env lam) v) = Some v"
  by (simp add: node_env_def json_roundtrip)

section \<open>Facts about the work store\<close>

lemma gCurrentWork_setCurrentWork:
  "gCurrentWork (setCurrentWork E w g) =
     JObj [(''work'', if typeof w = ''object'' then JStr (JSON_stringify E w) else w)]"
  by (simp add: setCurrentWork_def)

lemma getCurrentWork_setCurrentWork:
  "getCurrentWork (setCurrentWork E w g) =
     Inr (if typeof w = ''object'' then JStr (JSON_stringify E w) else w)"
  by (simp add: getCurrentWork_def setCurrentWork_def)

lemma stratumDeserialize_text:
  "stratumDeserialize E (JStr s) = (case JSON_parse E s of None \<Rightarrow> JNull | Some x \<Rightarrow> x)"
  by (simp add: stratumDeserialize_def)

lemma typeof_string: "typeof w = ''string'' \<Longrightarrow> \<exists>s. w = JStr s"
  by (cases w) simp_all

lemma sample_work_ser: "json_ser sample_msg = sample_work"
  by code_simp

lemma sample_work_parse: "json_parse sample_work = Some sample_msg"
  by code_simp

lemma sample_roundtrip:
  "JSON_parse sample_env (JSON_stringify sample_env sample_msg) = Some sample_msg"
  by (simp add: sample_env_def node_env_def sample_work_ser sample_work_parse)

text \<open>
  C10: every call of \<^verbatim>\<open>setCurrentWork\<close> replaces the work record by an object with the
  one field \<^verbatim>\<open>work\<close>, holding the serialization of an object and any other value as it
  is, so a string whenever the argument is an object or a string; the record never has a
  \<^verbatim>\<open>socketId\<close>, and \<^verbatim>\<open>getCurrentWorkSocketId\<close> returns \<^verbatim>\<open>undefined\<close>. The pending
  queue is not touched.
\<close>

theorem setCurrentWork_record:
  "gCurrentWork (setCurrentWork E w g) =
     JObj [(''work'', if typeof w = ''object'' then JStr (JSON_stringify E w) else w)]
   \<and> getCurrentWorkSocketId (setCurrentWork E w g) = Inr JUndefined
   \<and> gPendingVirtualBlocks (setCurrentWork E w g) = gPendingVirtualBlocks g
   \<and> (typeof w = ''object'' \<or> typeof w = ''string'' \<longrightarrow>
        (\<exists>s. getCurrentWork (setCurrentWork E w g) = Inr (JStr s)))"
proof -
  have "typeof w = ''string'' \<Longrightarrow> \<exists>s. getCurrentWork (setCurrentWork E w g) = Inr (JStr s)"
    using typeof_string [of w] by (auto simp: getCurrentWork_setCurrentWork)
  moreover have "typeof w = ''object'' \<Longrightarrow> \<exists>s. getCurrentWork (setCurrentWork E w g) = Inr (JStr s)"
    by (simp add: getCurrentWork_setCurrentWork)
  ultimately show ?thesis
    by (auto simp: gCurrentWork_setCurrentWork getCurrentWorkSocketId_def setCurrentWork_def)
qed

theorem setCurrentWork_record_witness:
  "typeof sample_msg = ''object''
   \<and> gCurrentWork (setCurrentWork sample_env sample_msg busy_globals) = JObj [(''work'', JStr sample_work)]
   \<and> getCurrentWorkSocketId (setCurrentWork sample_env sample_msg busy_globals) = Inr JUndefined
   \<and> (\<exists>s. getCurrentWork (setCurrentWork sample_env sample_msg busy_globals) = Inr (JStr s))"
proof -
  have t: "typeof sample_msg = ''object''"
    by (simp add: sample_msg_def)
  have s: "JSON_stringify sample_env sample_msg = sample_work"
    by (simp add: sample_env_def node_env_def sample_work_ser)
  show ?thesis
    using setCurrentWork_record [of sample_env sample_msg busy_globals] t s by simp
qed

text \<open>
  C1: after \<^verbatim>\<open>setCurrentWork(A)\<close> and then \<^verbatim>\<open>setCurrentWork(B)\<close> the module is in the
  state \<^verbatim>\<open>setCurrentWork(B)\<close> alone leaves, whatever A was. \<^verbatim>\<open>getCurrentWork\<close> returns
  B's record, and where B is an object that parses back from its serialization,
  \<^verbatim>\<open>getCurrentWorkId\<close> and \<^verbatim>\<open>getCurrentDifficulty\<close> return B's \<^verbatim>\<open>id\<close> and
  B's \<^verbatim>\<open>result[2]\<close>.
\<close>

theorem setCurrentWork_overwrite:
  "setCurrentWork E b (setCurrentWork E a g) = setCurrentWork E b g
   \<and> getCurrentWork (setCurrentWork E b (setCurrentWork E a g)) =
       Inr (if typeof b = ''object'' then JStr (JSON_stringify E b) else b)
   \<and> (typeof b = ''object'' \<and> JSON_parse E (JSON_stringify E b) = Some b \<longrightarrow>
        getCurrentWorkId E (setCurrentWork E b (setCurrentWork E a g)) = get_field b ''id''
        \<and> getCurrentDifficulty E (setCurrentWork E b (setCurrentWork E a g)) =
            (case get_field b ''result'' of Inl e \<Rightarrow> Inl e | Inr r \<Rightarrow> get_index r 2))"
proof -
  have over: "setCurrentWork E b (setCurrentWork E a g) = setCurrentWork E b g"
    by (simp add: setCurrentWork_def)
  have "getCurrentWorkId E (setCurrentWork E b g) = get_field b ''id''"
    and "getCurrentDifficulty E (setCurrentWork E b g) =
           (case get_field b ''result'' of Inl e \<Rightarrow> Inl e | Inr r \<Rightarrow> get_index r 2)"
    if "typeof b = ''object''" and "JSON_parse E (JSON_stringify E b) = Some b"
    using that
    by (simp_all add: getCurrentWorkId_def getCurrentDifficulty_def
          getCurrentWork_setCurrentWork stratumDeserialize_text)
  then show ?thesis
    by (simp add: over getCurrentWork_setCurrentWork)
qed

theorem setCurrentWork_overwrite_witness:
  "typeof sample_msg = ''object''
   \<and> JSON_parse sample_env (JSON_stringify sample_env sample_msg) = Some sample_msg
   \<and> setCurrentWork sample_env sample_msg (setCurrentWork sample_env earlier_msg init_globals)
       = \<lparr>gCurrentWork = JObj [(''work'', JStr sample_work)], gPendingVirtualBlocks = []\<rparr>
   \<and> getCurrentWorkId sample_env
        (setCurrentWork sample_env sample_msg (setCurrentWork sample_env earlier_msg init_globals))
       = Inr (JNum 1)
   \<and> getCurrentDifficulty sample_env
        (setCurrentWork sample_env sample_msg (setCurrentWork sample_env earlier_msg init_globals))
       = Inr (JStr ''0xCC'')"
proof -
  have t: "typeof sample_msg = ''object''"
    by (simp add: sample_msg_def)
  have s: "JSON_stringify sample_env sample_msg = sample_work"
    by (simp add: sample_env_def node_env_def sample_work_ser)
  have i: "get_field sample_msg ''id'' = Inr (JNum 1)"
    and r: "get_field sample_msg ''result'' = Inr (JArr [JStr ''0xAA'', JStr ''0xBB'', JStr ''0xCC''])"
    by (simp_all add: sample_msg_def)
  have e: "setCurrentWork sample_env sample_msg init_globals
          = \<lparr>gCurrentWork = JObj [(''work'', JStr sample_work)], gPendingVirtualBlocks = []\<rparr>"
    by (simp add: setCurrentWork_def init_globals_def t s)
  note o = setCurrentWork_overwrite [of sample_env sample_msg earlier_msg init_globals]
  from o have "setCurrentWork sample_env sample_msg (setCurrentWork sample_env earlier_msg init_globals)
      = setCurrentWork sample_env sample_msg init_globals"
    by blast
  moreover from o t sample_roundtrip
  have "getCurrentWorkId sample_env
          (setCurrentWork sample_env sample_msg (setCurrentWork sample_env earlier_msg init_globals))
        = get_field sample_msg ''id''"
    and "getCurrentDifficulty sample_env
          (setCurrentWork sample_env sample_msg (setCurrentWork sample_env earlier_msg init_globals))
        = (case get_field sample_msg ''result'' of Inl e \<Rightarrow> Inl e | Inr r \<Rightarrow> get_index r 2)"
    by blast+
  ultimately show ?thesis
    using t sample_roundtrip by (simp add: e i r)
qed

text \<open>
  C9: once a work message with \<^verbatim>\<open>id\<close> \<open>n\<close> and \<^verbatim>\<open>result\<close>
  \<open>[headerHash, seedHash, shareTarget]\<close> is stored by \<^verbatim>\<open>setCurrentWork\<close>,
  \<^verbatim>\<open>getCurrentWorkId\<close> returns \<open>n\<close> and \<^verbatim>\<open>getCurrentDifficulty\<close> returns
  \<open>shareTarget\<close>, for a message that parses back from its serialization. For the
  spec's sample these are 1 and \<^verbatim>\<open>0xCC\<close>.
\<close>

theorem accessors_after_setCurrentWork:
  assumes "map_of kvs ''id'' = Some n"
    and "map_of kvs ''result'' = Some (JArr [headerHash, seedHash, shareTarget])"
    and "JSON_parse E (JSON_stringify E (JObj kvs)) = Some (JObj kvs)"
  shows "getCurrentWorkId E (setCurrentWork E (JObj kvs) g) = Inr n
         \<and> getCurrentDifficulty E (setCurrentWork E (JObj kvs) g) = Inr shareTarget"
  using assms
  by (simp add: getCurrentWorkId_def getCurrentDifficulty_def
        getCurrentWork_setCurrentWork stratumDeserialize_text)

theorem accessors_after_setCurrentWork_witness:
  "getCurrentWorkId sample_env (setCurrentWork sample_env sample_msg busy_globals) = Inr (JNum 1)
   \<and> getCurrentDifficulty sample_env (setCurrentWork sample_env sample_msg busy_globals)
       = Inr (JStr ''0xCC'')"
proof -
  let ?kvs = "[(''id'', JNum 1), (''jsonrpc'', JStr ''2.0''),
               (''result'', JArr [JStr ''0xAA'', JStr ''0xBB'', JStr ''0xCC''])]"
  have m: "sample_msg = JObj ?kvs"
    by (simp add: sample_msg_def)
  have "map_of ?kvs ''id'' = Some (JNum 1)"
    and "map_of ?kvs ''result'' = Some (JArr [JStr ''0xAA'', JStr ''0xBB'', JStr ''0xCC''])"
    by simp_all
  moreover have "JSON_parse sample_env (JSON_stringify sample_env (JObj ?kvs)) = Some (JObj ?kvs)"
    using sample_roundtrip by (simp add: m)
  ultimately show ?thesis
    unfolding m by (rule accessors_after_setCurrentWork)
qed

section \<open>Facts about the broadcast\<close>

lemma txs_loop_from:
  "i \<le> length pending \<Longrightarrow> i \<le> length ts \<Longrightarrow>
   txs_loop i pending ts = take i ts @ drop i pending @ drop (length pending) ts"
proof (induction i pending ts rule: txs_loop.induct)
  case (1 i pending ts)
  show ?case
  proof (cases "i < length pending")
    case False
    with "1.prems" show ?thesis by (subst txs_loop.simps) simp
  next
    case True
    let ?ts = "js_array_set ts i (pending ! i)"
    have len: "Suc i \<le> length ?ts"
      using "1.prems" by (simp add: js_array_set_def)
    have tk: "take (Suc i) ?ts = take i ts @ [pending ! i]"
      using "1.prems" by (cases "i < length ts") (simp_all add: js_array_set_def take_Suc_conv_app_nth)
    have dr: "drop (length pending) ?ts = drop (length pending) ts"
      using "1.prems" True by (simp add: js_array_set_def)
    have "txs_loop i pending ts = txs_loop (Suc i) pending ?ts"
      using True by (subst txs_loop.simps) simp
    also have "\<dots> = take (Suc i) ?ts @ drop (Suc i) pending @ drop (length pending) ?ts"
      using "1.IH" [OF True] True len by simp
    also have "\<dots> = take i ts @ drop i pending @ drop (length pending) ts"
      using True by (simp add: tk dr Cons_nth_drop_Suc)
    finally show ?thesis .
  qed
qed

lemma txs_loop_all: "txs_loop 0 pending ts = pending @ drop (length pending) ts"
  using txs_loop_from [of 0 pending ts] by simp

lemma send_loop_eq:
  "list_all (\<lambda>k. map_of (socket c) k \<noteq> None) (map fst kts) \<Longrightarrow>
   send_loop c kts pending p =
     Inr (map (\<lambda>(key, tok). SocketWrite key (p\<lparr>miner := tok, txs := pending @ drop (length pending) (txs p)\<rparr>)) kts)"
proof (induction kts arbitrary: p)
  case Nil
  show ?case by simp
next
  case (Cons kt kts)
  obtain key tok where kt: "kt = (key, tok)"
    by (cases kt)
  from Cons.prems obtain s where s: "map_of (socket c) key = Some s"
    by (auto simp: kt)
  from Cons.prems have rest: "list_all (\<lambda>k. map_of (socket c) k \<noteq> None) (map fst kts)"
    by simp
  show ?case
    by (simp add: kt s Let_def txs_loop_all Cons.IH [OF rest])
qed

lemma sendVirtualBlocks_eq:
  "tracked c \<Longrightarrow>
   sendVirtualBlocks c p g =
     Inr (g\<lparr>gPendingVirtualBlocks := []\<rparr>,
          map (\<lambda>(key, tok). SocketWrite key
                 (p\<lparr>miner := tok,
                    txs := gPendingVirtualBlocks g @ drop (length (gPendingVirtualBlocks g)) (txs p)\<rparr>))
              (ids c))"
  by (simp add: sendVirtualBlocks_def tracked_def send_loop_eq)


lemma tracked_two_peers: "tracked two_peers"
  by (simp add: tracked_def two_peers_def)

lemma prepareToSendBlocks_eq:
  assumes "tracked c"
    and "get_index result 0 = Inr h" and "get_index result 1 = Inr s" and "get_index result 2 = Inr t"
  shows "prepareToSendBlocks c blocks result g =
     Inr (g\<lparr>gPendingVirtualBlocks := []\<rparr>,
          map (\<lambda>(key, tok). SocketWrite key
                 \<lparr>rpc_id = 1, jsonrpc = ''2.0'', rpc_method = ''eth_submitWork'',
                  params = [h, s, t], miner = tok, virtualBlocks = blocks,
                  txs = gPendingVirtualBlocks g\<rparr>)
              (ids c))"
  using assms by (simp add: prepareToSendBlocks_def sendVirtualBlocks_eq)

lemma send_loop_txs:
  "send_loop c kts pending q = Inr es \<Longrightarrow> length (txs q) \<le> length pending \<Longrightarrow>
   list_all (\<lambda>(key, s). txs s = pending) (written es)"
proof (induction kts arbitrary: q es)
  case Nil
  then show ?case by simp
next
  case (Cons kt kts)
  obtain key tok where kt: "kt = (key, tok)" by (cases kt)
  let ?q = "q\<lparr>miner := tok, txs := txs_loop 0 pending (txs q)\<rparr>"
  have tq: "txs ?q = pending"
    using Cons.prems(2) by (auto simp: txs_loop_all)
  from Cons.prems(1) obtain rest where rest: "send_loop c kts pending ?q = Inr rest"
    and es: "es = SocketWrite key ?q # rest"
    by (auto simp: kt Let_def split: option.splits sum.splits)
  have "list_all (\<lambda>(key, s). txs s = pending) (written rest)"
    by (rule Cons.IH [OF rest]) (simp add: tq)
  then show ?case
    by (simp add: es tq)
qed

lemma sendVirtualBlocks_result:
  assumes "sendVirtualBlocks c p g = Inr (g', evs)"
  shows "g' = g\<lparr>gPendingVirtualBlocks := []\<rparr>"
    and "length (txs p) \<le> length (gPendingVirtualBlocks g) \<Longrightarrow>
         list_all (\<lambda>(key, s). txs s = gPendingVirtualBlocks g) (written evs)"
proof -
  from assms obtain es where es: "send_loop c (ids c) (gPendingVirtualBlocks g) p = Inr es"
    and g': "g' = g\<lparr>gPendingVirtualBlocks := []\<rparr>" and evs: "evs = es"
    by (auto simp: sendVirtualBlocks_def split: sum.splits)
  show "g' = g\<lparr>gPendingVirtualBlocks := []\<rparr>" by (rule g')
  show "list_all (\<lambda>(key, s). txs s = gPendingVirtualBlocks g) (written evs)"
    if "length (txs p) \<le> length (gPendingVirtualBlocks g)"
    using send_loop_txs [OF es that] by (simp add: evs)
qed

lemma prepareToSendBlocks_result:
  assumes "prepareToSendBlocks c blocks result g = Inr (g', evs)"
  shows "g' = g\<lparr>gPendingVirtualBlocks := []\<rparr>
         \<and> list_all (\<lambda>(key, s). txs s = gPendingVirtualBlocks g) (written evs)"
proof -
  from assms obtain p where p: "sendVirtualBlocks c p g = Inr (g', evs)" and fresh: "txs p = []"
    by (auto simp: prepareToSendBlocks_def split: sum.splits)
  from sendVirtualBlocks_result [OF p] fresh show ?thesis
    by simp
qed




text \<open>
  C5: with every tracked key having its socket, \<^verbatim>\<open>sendVirtualBlocks\<close> completes, and
  whenever it completes the pending queue is empty; no write is looked at before the queue
  is cleared. A broadcast that follows with nothing submitted in between, by
  \<^verbatim>\<open>prepareToSendBlocks\<close> or by \<^verbatim>\<open>sendVirtualBlocks\<close> on a fresh submission, writes an
  empty \<^verbatim>\<open>txs\<close> to every connection.
\<close>

theorem sendVirtualBlocks_clears_queue:
  "(tracked c \<longrightarrow> (\<exists>evs. sendVirtualBlocks c p g = Inr (g\<lparr>gPendingVirtualBlocks := []\<rparr>, evs)))
   \<and> (\<forall>g' evs. sendVirtualBlocks c p g = Inr (g', evs) \<longrightarrow>
         gPendingVirtualBlocks g' = []
         \<and> (\<forall>blocks result g'' evs'.
               prepareToSendBlocks c blocks result g' = Inr (g'', evs') \<longrightarrow>
               gPendingVirtualBlocks g'' = [] \<and> list_all (\<lambda>(key, s). txs s = []) (written evs'))
         \<and> (\<forall>p' g'' evs'.
               txs p' = [] \<and> sendVirtualBlocks c p' g' = Inr (g'', evs') \<longrightarrow>
               gPendingVirtualBlocks g'' = [] \<and> list_all (\<lambda>(key, s). txs s = []) (written evs')))"
proof (intro conjI impI allI)
  assume "tracked c"
  then show "\<exists>evs. sendVirtualBlocks c p g = Inr (g\<lparr>gPendingVirtualBlocks := []\<rparr>, evs)"
    by (simp add: sendVirtualBlocks_eq)
next
  fix g' evs
  assume run: "sendVirtualBlocks c p g = Inr (g', evs)"
  then show empty: "gPendingVirtualBlocks g' = []"
    using sendVirtualBlocks_result(1) [of c p g g' evs] by simp
  {
    fix blocks result g'' evs'
    assume "prepareToSendBlocks c blocks result g' = Inr (g'', evs')"
    from prepareToSendBlocks_result [OF this] empty
    show "gPendingVirtualBlocks g'' = []" and "list_all (\<lambda>(key, s). txs s = []) (written evs')"
      by simp_all
  }
  {
    fix p' g'' evs'
    assume "txs p' = [] \<and> sendVirtualBlocks c p' g' = Inr (g'', evs')"
    then have fresh: "txs p' = []" and again: "sendVirtualBlocks c p' g' = Inr (g'', evs')"
      by simp_all
    from sendVirtualBlocks_result [OF again] fresh empty
    show "gPendingVirtualBlocks g'' = []" and "list_all (\<lambda>(key, s). txs s = []) (written evs')"
      by simp_all
  }
qed

theorem sendVirtualBlocks_clears_queue_witness:
  "tracked two_peers
   \<and> sendVirtualBlocks two_peers sample_submission queued_globals =
       Inr (queued_globals\<lparr>gPendingVirtualBlocks := []\<rparr>,
            [SocketWrite 0 (sample_submission\<lparr>miner := ''0xa1'', txs := [JArr [JStr ''b1''], JArr [JStr ''b2'']]\<rparr>),
             SocketWrite 1 (sample_submission\<lparr>miner := ''0xb2'', txs := [JArr [JStr ''b1''], JArr [JStr ''b2'']]\<rparr>)])
   \<and> gPendingVirtualBlocks (queued_globals\<lparr>gPendingVirtualBlocks := []\<rparr>) = []
   \<and> prepareToSendBlocks two_peers [JStr ''vb0'', JStr ''vb1'']
        (JArr [JStr ''0xAA'', JStr ''0xBB'', JStr ''0xCC'']) (queued_globals\<lparr>gPendingVirtualBlocks := []\<rparr>) =
       Inr (queued_globals\<lparr>gPendingVirtualBlocks := []\<rparr>,
            [SocketWrite 0 (sample_submission\<lparr>miner := ''0xa1''\<rparr>),
             SocketWrite 1 (sample_submission\<lparr>miner := ''0xb2''\<rparr>)])
   \<and> list_all (\<lambda>(key, s). txs s = [])
        (written [SocketWrite 0 (sample_submission\<lparr>miner := ''0xa1''\<rparr>),
                  SocketWrite 1 (sample_submission\<lparr>miner := ''0xb2''\<rparr>)])"
proof -
  let ?g1 = "queued_globals\<lparr>gPendingVirtualBlocks := []\<rparr>"
  let ?evs = "[SocketWrite 0 (sample_submission\<lparr>miner := ''0xa1'', txs := [JArr [JStr ''b1''], JArr [JStr ''b2'']]\<rparr>),
               SocketWrite 1 (sample_submission\<lparr>miner := ''0xb2'', txs := [JArr [JStr ''b1''], JArr [JStr ''b2'']]\<rparr>)]"
  let ?evs' = "[SocketWrite 0 (sample_submission\<lparr>miner := ''0xa1''\<rparr>),
                SocketWrite 1 (sample_submission\<lparr>miner := ''0xb2''\<rparr>)]"
  have first: "sendVirtualBlocks two_peers sample_submission queued_globals = Inr (?g1, ?evs)"
    unfolding sendVirtualBlocks_eq [OF tracked_two_peers]
    by (simp add: two_peers_def queued_globals_def sample_submission_def)
  have "get_index (JArr [JStr ''0xAA'', JStr ''0xBB'', JStr ''0xCC'']) 0 = Inr (JStr ''0xAA'')"
    and "get_index (JArr [JStr ''0xAA'', JStr ''0xBB'', JStr ''0xCC'']) 1 = Inr (JStr ''0xBB'')"
    and "get_index (JArr [JStr ''0xAA'', JStr ''0xBB'', JStr ''0xCC'']) 2 = Inr (JStr ''0xCC'')"
    by simp_all
  from prepareToSendBlocks_eq [OF tracked_two_peers this]
  have second: "prepareToSendBlocks two_peers [JStr ''vb0'', JStr ''vb1'']
        (JArr [JStr ''0xAA'', JStr ''0xBB'', JStr ''0xCC'']) ?g1 = Inr (?g1, ?evs')"
    by (simp add: two_peers_def queued_globals_def sample_submission_def)
  from sendVirtualBlocks_clears_queue [of two_peers sample_submission queued_globals] first second
  have "gPendingVirtualBlocks ?g1 = []" and "list_all (\<lambda>(key, s). txs s = []) (written ?evs')"
    by blast+
  with tracked_two_peers first second show ?thesis
    by blast
qed

text \<open>
  C6: \<^verbatim>\<open>submitVirtualBlocks\<close> does nothing for \<^verbatim>\<open>undefined\<close> blocks. For a non-empty
  batch it appends the batch as one entry to the pending queue and calls
  \<^verbatim>\<open>prepareToSendBlocks\<close>; every submission then written has the method
  \<^verbatim>\<open>eth_submitWork\<close>, the params \<open>[headerHash, seedHash, shareTarget]\<close> read from the
  work result, and a \<^verbatim>\<open>txs\<close> that ends with the batch.
\<close>

theorem submitVirtualBlocks_batch:
  "submitVirtualBlocks c None result g = Inr (g, [])
   \<and> (bs \<noteq> [] \<longrightarrow>
        submitVirtualBlocks c (Some bs) result g =
          prepareToSendBlocks c bs result
            (g\<lparr>gPendingVirtualBlocks := gPendingVirtualBlocks g @ [JArr bs]\<rparr>))
   \<and> (bs \<noteq> [] \<and> tracked c \<and> get_index result 0 = Inr headerHash
        \<and> get_index result 1 = Inr seedHash \<and> get_index result 2 = Inr shareTarget \<longrightarrow>
        submitVirtualBlocks c (Some bs) result g =
          Inr (g\<lparr>gPendingVirtualBlocks := []\<rparr>,
               map (\<lambda>(key, tok). SocketWrite key
                      \<lparr>rpc_id = 1, jsonrpc = ''2.0'', rpc_method = ''eth_submitWork'',
                       params = [headerHash, seedHash, shareTarget], miner = tok,
                       virtualBlocks = bs, txs = gPendingVirtualBlocks g @ [JArr bs]\<rparr>)
                 (ids c)))"
  by (simp add: submitVirtualBlocks_def prepareToSendBlocks_eq)

theorem submitVirtualBlocks_batch_witness:
  "submitVirtualBlocks two_peers None (JArr [JStr ''0xAA'', JStr ''0xBB'', JStr ''0xCC'']) busy_globals
     = Inr (busy_globals, [])
   \<and> [JStr ''vb0'', JStr ''vb1''] \<noteq> [] \<and> tracked two_peers
   \<and> submitVirtualBlocks two_peers (Some [JStr ''vb0'', JStr ''vb1''])
        (JArr [JStr ''0xAA'', JStr ''0xBB'', JStr ''0xCC'']) busy_globals =
       Inr (busy_globals\<lparr>gPendingVirtualBlocks := []\<rparr>,
            [SocketWrite 0 (sample_submission\<lparr>miner := ''0xa1'',
               txs := [JArr [JStr ''vb9''], JArr [JStr ''vb0'', JStr ''vb1'']]\<rparr>),
             SocketWrite 1 (sample_submission\<lparr>miner := ''0xb2'',
               txs := [JArr [JStr ''vb9''], JArr [JStr ''vb0'', JStr ''vb1'']]\<rparr>)])"
proof -
  let ?r = "JArr [JStr ''0xAA'', JStr ''0xBB'', JStr ''0xCC'']"
  have i: "get_index ?r 0 = Inr (JStr ''0xAA'')" "get_index ?r 1 = Inr (JStr ''0xBB'')"
    "get_index ?r 2 = Inr (JStr ''0xCC'')"
    by simp_all
  note s = submitVirtualBlocks_batch [of two_peers ?r busy_globals "[JStr ''vb0'', JStr ''vb1'']"
      "JStr ''0xAA''" "JStr ''0xBB''" "JStr ''0xCC''"]
  from s have none: "submitVirtualBlocks two_peers None ?r busy_globals = Inr (busy_globals, [])"
    by blast
  from s i tracked_two_peers
  have "submitVirtualBlocks two_peers (Some [JStr ''vb0'', JStr ''vb1'']) ?r busy_globals =
          Inr (busy_globals\<lparr>gPendingVirtualBlocks := []\<rparr>,
               map (\<lambda>(key, tok). SocketWrite key
                      \<lparr>rpc_id = 1, jsonrpc = ''2.0'', rpc_method = ''eth_submitWork'',
                       params = [JStr ''0xAA'', JStr ''0xBB'', JStr ''0xCC''], miner = tok,
                       virtualBlocks = [JStr ''vb0'', JStr ''vb1''],
                       txs = gPendingVirtualBlocks busy_globals @ [JArr [JStr ''vb0'', JStr ''vb1'']]\<rparr>)
                 (ids two_peers))"
    by blast
  then have "submitVirtualBlocks two_peers (Some [JStr ''vb0'', JStr ''vb1'']) ?r busy_globals =
       Inr (busy_globals\<lparr>gPendingVirtualBlocks := []\<rparr>,
            [SocketWrite 0 (sample_submission\<lparr>miner := ''0xa1'',
               txs := [JArr [JStr ''vb9''], JArr [JStr ''vb0'', JStr ''vb1'']]\<rparr>),
             SocketWrite 1 (sample_submission\<lparr>miner := ''0xb2'',
               txs := [JArr [JStr ''vb9''], JArr [JStr ''vb0'', JStr ''vb1'']]\<rparr>)])"
    by (simp add: two_peers_def busy_globals_def sample_submission_def)
  with none tracked_two_peers show ?thesis
    by simp
qed

section \<open>Facts about the data handler\<close>

text \<open>
  C7: for a chunk that \<^verbatim>\<open>JSON.parse\<close> rejects, \<^verbatim>\<open>onData\<close> returns normally with the
  work record and the pending queue as they were and with nothing written to any socket.
  \<^verbatim>\<open>onDataSetWork\<close>, called on such a chunk whose reframed text is rejected as well,
  returns with the state unchanged too.
\<close>

theorem onData_unparseable:
  "JSON_parse E payload = None \<longrightarrow>
     onData E c payload g = Inr (g, [])
     \<and> (JSON_parse E (sanitize payload) = None \<longrightarrow> onDataSetWork E payload g = Inr g)"
  by (simp add: onData_def onDataSetWork_def reframe_def stratumDeserialize_text)

lemma not_json_parse: "json_parse ''not json'' = None"
  by code_simp

lemma not_json_sanitized: "json_parse (sanitize ''not json'') = None"
  by code_simp

theorem onData_unparseable_witness:
  "JSON_parse sample_env ''not json'' = None
   \<and> JSON_parse sample_env (sanitize ''not json'') = None
   \<and> onData sample_env two_peers ''not json'' busy_globals = Inr (busy_globals, [])
   \<and> onDataSetWork sample_env ''not json'' busy_globals = Inr busy_globals"
proof -
  have p: "JSON_parse sample_env ''not json'' = None"
    and q: "JSON_parse sample_env (sanitize ''not json'') = None"
    by (simp_all add: sample_env_def node_env_def not_json_parse not_json_sanitized)
  from onData_unparseable [of sample_env "''not json''" two_peers busy_globals] p q
  show ?thesis by blast
qed

text \<open>
  C8: for a chunk that parses to a value with no \<^verbatim>\<open>id\<close>, \<^verbatim>\<open>onData\<close> returns before
  anything is changed: the work record and the pending queue are as they were and nothing
  is written, whatever \<^verbatim>\<open>result\<close> the message carries.
\<close>

theorem onData_without_id:
  assumes "JSON_parse E payload = Some obj"
    and "get_field obj ''id'' = Inr JUndefined"
  shows "onData E c payload g = Inr (g, [])"
  using assms by (simp add: onData_def stratumDeserialize_text)

lemma anonymous_parse:
  "json_parse anonymous_work =
     Some (JObj [(''jsonrpc'', JStr ''2.0''),
                 (''result'', JArr [JStr ''0xAA'', JStr ''0xBB'', JStr ''0xCC''])])"
  by code_simp

theorem onData_without_id_witness:
  "JSON_parse sample_env anonymous_work =
     Some (JObj [(''jsonrpc'', JStr ''2.0''),
                 (''result'', JArr [JStr ''0xAA'', JStr ''0xBB'', JStr ''0xCC''])])
   \<and> onData sample_env two_peers anonymous_work busy_globals = Inr (busy_globals, [])"
proof -
  let ?obj = "JObj [(''jsonrpc'', JStr ''2.0''),
                    (''result'', JArr [JStr ''0xAA'', JStr ''0xBB'', JStr ''0xCC''])]"
  have p: "JSON_parse sample_env anonymous_work = Some ?obj"
    by (simp add: sample_env_def node_env_def anonymous_parse)
  have i: "get_field ?obj ''id'' = Inr JUndefined"
    by simp
  from onData_without_id [OF p i] p show ?thesis
    by simp
qed

text \<open>
  What the handler does with a work message: the message is stored, the batch derived from
  the chunk joins the queue, one submission goes to every connection and the queue is
  cleared.
\<close>

lemma onData_work_message:
  assumes "JSON_parse E payload = Some (JObj kvs)"
    and "map_of kvs ''id'' = Some i" and "i \<noteq> JUndefined"
    and "map_of kvs ''result'' = Some (JArr [headerHash, seedHash, shareTarget])"
    and "prepreVirtualBlocks E payload = Some bs" and "bs \<noteq> []"
    and "tracked c"
  shows "onData E c payload g =
     Inr ((setCurrentWork E (JObj kvs) g)\<lparr>gPendingVirtualBlocks := []\<rparr>,
          map (\<lambda>(key, tok). SocketWrite key
                 \<lparr>rpc_id = 1, jsonrpc = ''2.0'', rpc_method = ''eth_submitWork'',
                  params = [headerHash, seedHash, shareTarget], miner = tok,
                  virtualBlocks = bs, txs = gPendingVirtualBlocks g @ [JArr bs]\<rparr>)
              (ids c))"
proof -
  have u: "typeof i \<noteq> ''undefined''"
    using assms(3) by (cases i) simp_all
  have store: "onDataSetWork E payload g = Inr (setCurrentWork E (JObj kvs) g)"
    using assms(1,4) by (simp add: onDataSetWork_def stratumDeserialize_text)
  have q: "gPendingVirtualBlocks (setCurrentWork E (JObj kvs) g) = gPendingVirtualBlocks g"
    by (simp add: setCurrentWork_def)
  have "submitVirtualBlocks c (Some bs) (JArr [headerHash, seedHash, shareTarget])
          (setCurrentWork E (JObj kvs) g) =
        Inr ((setCurrentWork E (JObj kvs) g)\<lparr>gPendingVirtualBlocks := []\<rparr>,
          map (\<lambda>(key, tok). SocketWrite key
                 \<lparr>rpc_id = 1, jsonrpc = ''2.0'', rpc_method = ''eth_submitWork'',
                  params = [headerHash, seedHash, shareTarget], miner = tok,
                  virtualBlocks = bs, txs = gPendingVirtualBlocks g @ [JArr bs]\<rparr>)
              (ids c))"
    using assms(6,7) by (simp add: submitVirtualBlocks_def prepareToSendBlocks_eq q)
  then show ?thesis
    using assms(1,2,4,5) u by (simp add: onData_def stratumDeserialize_text store)
qed

text \<open>
  A message with an \<^verbatim>\<open>id\<close> whose \<^verbatim>\<open>result\<close> is \<^verbatim>\<open>null\<close> passes the test
  \<^verbatim>\<open>typeof result === 'object'\<close>, and reading \<^verbatim>\<open>result[0]\<close> raises.
\<close>

lemma onData_null_result:
  assumes "JSON_parse E payload = Some (JObj kvs)"
    and "map_of kvs ''id'' = Some i" and "i \<noteq> JUndefined"
    and "map_of kvs ''result'' = Some JNull"
  shows "onData E c payload g = Inl TypeError"
proof -
  have u: "typeof i \<noteq> ''undefined''"
    using assms(3) by (cases i) simp_all
  have "onDataSetWork E payload g = Inr g"
    using assms(1,4) by (simp add: onDataSetWork_def stratumDeserialize_text)
  then show ?thesis
    using assms(1,2,4) u by (simp add: onData_def stratumDeserialize_text)
qed

text \<open>The spec's end-to-end scenario: the sample fed to a client with two peers.\<close>

lemma onData_sample_work:
  "onData sample_env two_peers sample_work init_globals =
     Inr (\<lparr>gCurrentWork = JObj [(''work'', JStr sample_work)], gPendingVirtualBlocks = []\<rparr>,
          [SocketWrite 0 (sample_submission\<lparr>miner := ''0xa1'', txs := [JArr [JStr ''vb0'', JStr ''vb1'']]\<rparr>),
           SocketWrite 1 (sample_submission\<lparr>miner := ''0xb2'', txs := [JArr [JStr ''vb0'', JStr ''vb1'']]\<rparr>)])"
  by code_simp

lemma concat_parse: "json_parse (sample_work @ second_work) = None"
  by code_simp

text \<open>
  C2: two work messages in one chunk with nothing between them. The \<^verbatim>\<open>try\<close> block of
  \<^verbatim>\<open>onDataSetWork\<close> does recover both, but \<^verbatim>\<open>onDataSetWork\<close> stores the first only
  (\<^verbatim>\<open>extraData\<close> is never read), and \<^verbatim>\<open>onData\<close> has returned before calling it: the
  chunk changes nothing and nothing is written, while the second message alone in a chunk
  is stored and broadcast.
\<close>

theorem onData_concatenated:
  "reframe sample_env (sample_work @ second_work) = Some (sample_msg, second_msg)
   \<and> onDataSetWork sample_env (sample_work @ second_work) busy_globals =
       Inr (setCurrentWork sample_env sample_msg busy_globals)
   \<and> onData sample_env two_peers (sample_work @ second_work) busy_globals = Inr (busy_globals, [])
   \<and> onData sample_env two_peers second_work busy_globals =
       Inr ((setCurrentWork sample_env second_msg busy_globals)\<lparr>gPendingVirtualBlocks := []\<rparr>,
            [SocketWrite 0 (sample_submission\<lparr>params := [JStr ''0xDD'', JStr ''0xEE'', JStr ''0xFF''],
               miner := ''0xa1'', txs := [JArr [JStr ''vb9''], JArr [JStr ''vb0'', JStr ''vb1'']]\<rparr>),
             SocketWrite 1 (sample_submission\<lparr>params := [JStr ''0xDD'', JStr ''0xEE'', JStr ''0xFF''],
               miner := ''0xb2'', txs := [JArr [JStr ''vb9''], JArr [JStr ''vb0'', JStr ''vb1'']]\<rparr>)])"
  by code_simp

section \<open>Facts about starting the client\<close>

lemma map_of_obj_set: "map_of (obj_set xs k v) = (map_of xs)(k \<mapsto> v)"
  by (induction xs k v rule: obj_set.induct) (auto simp: fun_upd_twist)

lemma keys_obj_set: "fst ` set (obj_set xs k v) = insert k (fst ` set xs)"
  by (induction xs k v rule: obj_set.induct) auto

lemma tracked_Client: "tracked Client"
  by (simp add: tracked_def Client_def)

text \<open>
  C3, as amended: a start opens one connection, to the peer \<^verbatim>\<open>servers[serverId]\<close>,
  when \<^verbatim>\<open>serverId\<close> is at least 0 and that peer is configured; the token of the call
  and the new socket are stored under that id, the other keys of \<^verbatim>\<open>ids\<close> and
  \<^verbatim>\<open>socket\<close> keep what they had, and every key of \<^verbatim>\<open>ids\<close> still has its socket. With
  a negative \<^verbatim>\<open>serverId\<close> no connection is opened and no token is stored. Either way the
  API server is started.
\<close>

theorem start_selected_peer:
  "(0 \<le> serverId opts \<and> js_nth (servers opts) (serverId opts) = Some s \<longrightarrow>
      (\<exists>c'. startClientWithAppServer token opts c =
              Inr (c', [SocketConnect (nat (serverId opts)) (host s) (port s),
                        ApiListen (host (apiServer opts)) (port (apiServer opts))])
            \<and> map_of (ids c') = (map_of (ids c))(nat (serverId opts) \<mapsto> token)
            \<and> map_of (socket c') = (map_of (socket c))(nat (serverId opts) \<mapsto> \<lparr>sock_server = Some s\<rparr>)
            \<and> (tracked c \<longrightarrow> tracked c')))
   \<and> (serverId opts < 0 \<longrightarrow>
        startClientWithAppServer token opts c =
          Inr (c\<lparr>workObjects := workObjects c @ [()]\<rparr>,
               [ApiListen (host (apiServer opts)) (port (apiServer opts))]))"
proof (intro conjI impI)
  assume a: "0 \<le> serverId opts \<and> js_nth (servers opts) (serverId opts) = Some s"
  let ?k = "nat (serverId opts)"
  let ?c = "c\<lparr>workObjects := workObjects c @ [()],
               ids := obj_set (ids c) ?k token,
               socket := obj_set (socket c) ?k \<lparr>sock_server = Some s\<rparr>\<rparr>"
  have run: "startClientWithAppServer token opts c =
          Inr (?c, [SocketConnect ?k (host s) (port s),
                    ApiListen (host (apiServer opts)) (port (apiServer opts))])"
    using a by (simp add: startClientWithAppServer_def Let_def)
  have "tracked ?c" if "tracked c"
    using that by (simp add: tracked_def list_all_iff map_of_obj_set keys_obj_set)
  with run show "\<exists>c'. startClientWithAppServer token opts c =
              Inr (c', [SocketConnect ?k (host s) (port s),
                        ApiListen (host (apiServer opts)) (port (apiServer opts))])
            \<and> map_of (ids c') = (map_of (ids c))(?k \<mapsto> token)
            \<and> map_of (socket c') = (map_of (socket c))(?k \<mapsto> \<lparr>sock_server = Some s\<rparr>)
            \<and> (tracked c \<longrightarrow> tracked c')"
    by (intro exI [of _ ?c]) (simp add: map_of_obj_set)
next
  assume "serverId opts < 0"
  then show "startClientWithAppServer token opts c =
          Inr (c\<lparr>workObjects := workObjects c @ [()]\<rparr>,
               [ApiListen (host (apiServer opts)) (port (apiServer opts))])"
    by (simp add: startClientWithAppServer_def Let_def)
qed

lemma start_first: "startClientWithAppServer ''0xa1'' (sample_options 0) Client =
    Inr (one_peer, [SocketConnect 0 ''a.pool.example'' 8008, ApiListen ''localhost'' 55752])"
  by code_simp

lemma start_second: "startClientWithAppServer ''0xb2'' (sample_options 1) one_peer =
    Inr (two_peers, [SocketConnect 1 ''b.pool.example'' 8009, ApiListen ''localhost'' 55752])"
  by code_simp

theorem start_selected_peer_witness:
  "0 \<le> serverId (sample_options 1)
   \<and> js_nth (servers (sample_options 1)) (serverId (sample_options 1)) = Some peer_b
   \<and> (\<exists>c'. startClientWithAppServer ''0xb2'' (sample_options 1) one_peer =
              Inr (c', [SocketConnect 1 ''b.pool.example'' 8009, ApiListen ''localhost'' 55752])
            \<and> map_of (ids c') = [0 \<mapsto> ''0xa1'', 1 \<mapsto> ''0xb2''])
   \<and> serverId (sample_options (- 1)) < 0
   \<and> startClientWithAppServer ''0xb2'' (sample_options (- 1)) one_peer =
       Inr (one_peer\<lparr>workObjects := [(), ()]\<rparr>, [ApiListen ''localhost'' 55752])"
proof -
  have a: "0 \<le> serverId (sample_options 1)"
    and b: "js_nth (servers (sample_options 1)) (serverId (sample_options 1)) = Some peer_b"
    and n: "serverId (sample_options (- 1)) < 0"
    by (simp_all add: sample_options_def js_nth_def)
  from start_selected_peer [of "sample_options 1" peer_b "''0xb2''" one_peer] a b
  obtain c' where "startClientWithAppServer ''0xb2'' (sample_options 1) one_peer =
              Inr (c', [SocketConnect (nat (serverId (sample_options 1))) (host peer_b) (port peer_b),
                        ApiListen (host (apiServer (sample_options 1))) (port (apiServer (sample_options 1)))])"
    and "map_of (ids c') = (map_of (ids one_peer))(nat (serverId (sample_options 1)) \<mapsto> ''0xb2'')"
    by blast
  then have first: "\<exists>c'. startClientWithAppServer ''0xb2'' (sample_options 1) one_peer =
              Inr (c', [SocketConnect 1 ''b.pool.example'' 8009, ApiListen ''localhost'' 55752])
            \<and> map_of (ids c') = [0 \<mapsto> ''0xa1'', 1 \<mapsto> ''0xb2'']"
    by (intro exI [of _ c']) (simp add: sample_options_def peer_b_def one_peer_def)
  from start_selected_peer [of "sample_options (- 1)" peer_b "''0xb2''" one_peer] n
  have "startClientWithAppServer ''0xb2'' (sample_options (- 1)) one_peer =
       Inr (one_peer\<lparr>workObjects := workObjects one_peer @ [()]\<rparr>,
            [ApiListen (host (apiServer (sample_options (- 1)))) (port (apiServer (sample_options (- 1))))])"
    by blast
  then have second: "startClientWithAppServer ''0xb2'' (sample_options (- 1)) one_peer =
       Inr (one_peer\<lparr>workObjects := [(), ()]\<rparr>, [ApiListen ''localhost'' 55752])"
    by (simp add: sample_options_def one_peer_def)
  from a b n first second show ?thesis
    by blast
qed

text \<open>
  C3 as stated fails: with two peers configured, both with an id of at least 0, and
  \<^verbatim>\<open>serverId\<close> 0, a start connects to the first peer only and stores one token.
\<close>

theorem start_skips_other_peers:
  "peer_b \<in> set (servers (sample_options 0)) \<and> 0 \<le> server_id peer_b
   \<and> host peer_b = ''b.pool.example''
   \<and> startClientWithAppServer ''0xa1'' (sample_options 0) Client =
       Inr (one_peer, [SocketConnect 0 ''a.pool.example'' 8008, ApiListen ''localhost'' 55752])
   \<and> connected [SocketConnect 0 ''a.pool.example'' 8008, ApiListen ''localhost'' 55752]
       = [(0, ''a.pool.example'', 8008)]
   \<and> ids one_peer = [(0, ''0xa1'')]"
  by (simp add: start_first) (simp add: sample_options_def peer_b_def one_peer_def)

end
